theory Spec2Isabelle
  imports Complex_Main "HOL-Library.Sublist"
begin

section \<open>JavaScript values and library functions used by the app\<close>

text \<open>
  A property that may be missing from a JSON object (\<open>undefined\<close>) is an
  \<open>option\<close>. A number that may be \<open>NaN\<close> is an \<open>int option\<close> with \<open>None\<close> for
  \<open>NaN\<close>: every number the modelled code computes is an integer (milliseconds,
  minutes) or \<open>NaN\<close>.

  A string is the list of its UTF-16 code units, and its \<open>length\<close> their number. The
  strings the code takes apart or puts together (timestamps, keys, the words of the
  upstream API) are lists of \<open>char\<close>, the code units below 256. The strings of the
  stop directory and of a search, which the code only folds and compares, are lists over
  any type \<open>'c\<close> of code units.
\<close>

type_synonym num = "int option"

text \<open>
  \<open>String.prototype.toLowerCase\<close> and \<open>toUpperCase\<close> are the host's, defined by the
  case mappings of Unicode. They are parameters of the model: the functions that call
  them take the pair, and what is proved of these functions holds for every such pair.
\<close>

record 'c String_prototype =
  toLowerCase :: "'c list \<Rightarrow> 'c list"
  toUpperCase :: "'c list \<Rightarrow> 'c list"

definition decimal_digits :: string where
  "decimal_digits = ''0123456789''"

definition is_digit :: "char \<Rightarrow> bool" where
  "is_digit c = (c \<in> set decimal_digits)"

text \<open>The value of a decimal digit is its position among the digits.\<close>

definition digit_val :: "char \<Rightarrow> nat" where
  "digit_val c = length (takeWhile (\<lambda>d. d \<noteq> c) decimal_digits)"

definition digit_char :: "nat \<Rightarrow> char" where
  "digit_char n = decimal_digits ! n"

text \<open>\<open>String.prototype.includes\<close>: the argument occurs as a contiguous substring.\<close>

fun includes_str :: "'c list \<Rightarrow> 'c list \<Rightarrow> bool" where
  "includes_str [] q = (q = [])"
| "includes_str (c # cs) q = (prefix q (c # cs) \<or> includes_str cs q)"

text \<open>\<open>a || b\<close> on a string that may be missing: the empty string is falsy too.\<close>

definition truthy :: "'c list option \<Rightarrow> bool" where
  "truthy a = (case a of None \<Rightarrow> False | Some s \<Rightarrow> s \<noteq> [])"

definition or_else :: "'c list option \<Rightarrow> 'c list option \<Rightarrow> 'c list option" where
  "or_else a b = (if truthy a then a else b)"

definition or_str :: "'c list option \<Rightarrow> 'c list \<Rightarrow> 'c list" where
  "or_str a b = (case a of None \<Rightarrow> b | Some s \<Rightarrow> if s \<noteq> [] then s else b)"

text \<open>\<open>a || b\<close> on numbers: \<open>0\<close>, \<open>NaN\<close> and \<open>undefined\<close> are falsy.\<close>

definition num_or :: "num \<Rightarrow> int \<Rightarrow> int" where
  "num_or a b = (case a of None \<Rightarrow> b | Some n \<Rightarrow> if n \<noteq> 0 then n else b)"

text \<open>A template literal prints a missing property as \<open>undefined\<close>.\<close>

definition template :: "string option \<Rightarrow> string" where
  "template a = (case a of None \<Rightarrow> ''undefined'' | Some s \<Rightarrow> s)"

text \<open>Decimal printing of an integer, as a template literal prints a number.\<close>

fun show_nat :: "nat \<Rightarrow> string" where
  "show_nat n = (if n < 10 then [digit_char n] else show_nat (n div 10) @ [digit_char (n mod 10)])"

definition show_int :: "int \<Rightarrow> string" where
  "show_int i = (if i < 0 then CHR ''-'' # show_nat (nat (- i)) else show_nat (nat i))"

text \<open>
  \<open>parseInt(s, 10)\<close>: leading white space is skipped, a sign is read, then the
  longest run of decimal digits; \<open>NaN\<close> when there is no digit.
\<close>

definition is_space :: "char \<Rightarrow> bool" where
  "is_space c = (c \<in> set [CHR '' '', CHR 0x09, CHR 0x0A, CHR 0x0B, CHR 0x0C, CHR 0x0D])"

definition digits_value :: "string \<Rightarrow> nat" where
  "digits_value ds = foldl (\<lambda>acc c. 10 * acc + digit_val c) 0 ds"

definition parseInt10 :: "string \<Rightarrow> num" where
  "parseInt10 s =
     (let s1 = dropWhile is_space s;
          neg = (case s1 of [] \<Rightarrow> False | c # _ \<Rightarrow> c = CHR ''-'');
          s2 = (case s1 of [] \<Rightarrow> [] | c # r \<Rightarrow> if c = CHR ''-'' \<or> c = CHR ''+'' then r else s1);
          ds = takeWhile is_digit s2
      in if ds = [] then None
         else Some ((if neg then - 1 else 1) * int (digits_value ds)))"

text \<open>\<open>String.prototype.split\<close> on a one-character separator: never the empty list.\<close>

fun split_on :: "char \<Rightarrow> string \<Rightarrow> string list" where
  "split_on sep [] = [[]]"
| "split_on sep (c # cs) =
     (if c = sep then [] # split_on sep cs
      else (case split_on sep cs of [] \<Rightarrow> [[c]] | p # ps \<Rightarrow> (c # p) # ps))"

text \<open>
  \<open>Math.round\<close>: the nearest integer, a tie going towards plus infinity. The argument
  is always a quotient of two integers here: \<open>Math_round_quot a b\<close> is
  \<open>Math.round(a / b)\<close>.
\<close>

definition Math_round :: "real \<Rightarrow> int" where
  "Math_round x = \<lfloor>x + 1 / 2\<rfloor>"

definition Math_round_quot :: "int \<Rightarrow> int \<Rightarrow> int" where
  "Math_round_quot a b = Math_round (real_of_int a / real_of_int b)"

section \<open>The time arithmetic of \<open>Date\<close>\<close>

text \<open>
  Time values are milliseconds since the epoch. The host runs in UTC (the comment in
  \<open>_parseDateTime\<close>: "Homey runs in UTC"), so local time is UTC in every \<open>Date\<close>
  function below. The definitions follow the ECMAScript specification's
  \<open>Day\<close>, \<open>DayFromYear\<close>, \<open>YearFromTime\<close>, \<open>MonthFromTime\<close>, \<open>DateFromTime\<close>,
  \<open>WeekDay\<close>, \<open>MakeTime\<close>, \<open>MakeDay\<close>, \<open>MakeDate\<close> and \<open>TimeClip\<close>.
\<close>

definition msPerDay :: int where
  "msPerDay = 86400000"

definition Day :: "int \<Rightarrow> int" where
  "Day t = t div msPerDay"

definition TimeWithinDay :: "int \<Rightarrow> int" where
  "TimeWithinDay t = t mod msPerDay"

definition DaysInYear :: "int \<Rightarrow> int" where
  "DaysInYear y =
     (if y mod 4 \<noteq> 0 then 365 else if y mod 100 \<noteq> 0 then 366
      else if y mod 400 \<noteq> 0 then 365 else 366)"

definition DayFromYear :: "int \<Rightarrow> int" where
  "DayFromYear y =
     365 * (y - 1970) + (y - 1969) div 4 - (y - 1901) div 100 + (y - 1601) div 400"

text \<open>
  \<open>YearFromTime\<close> is the largest year whose first day is not after the given day:
  computed from an estimate that is off by at most one year.
\<close>

definition YearFromDay :: "int \<Rightarrow> int" where
  "YearFromDay d =
     (let y = 1970 + (d * 400) div 146097
      in if d < DayFromYear y then y - 1
         else if DayFromYear (y + 1) \<le> d then y + 1 else y)"

definition YearFromTime :: "int \<Rightarrow> int" where
  "YearFromTime t = YearFromDay (Day t)"

definition InLeapYear :: "int \<Rightarrow> int" where
  "InLeapYear t = (if DaysInYear (YearFromTime t) = 366 then 1 else 0)"

definition DayWithinYear :: "int \<Rightarrow> int" where
  "DayWithinYear t = Day t - DayFromYear (YearFromTime t)"

definition MonthFromTime :: "int \<Rightarrow> int" where
  "MonthFromTime t =
     (let d = DayWithinYear t; l = InLeapYear t
      in if d < 31 then 0 else if d < 59 + l then 1 else if d < 90 + l then 2
         else if d < 120 + l then 3 else if d < 151 + l then 4 else if d < 181 + l then 5
         else if d < 212 + l then 6 else if d < 243 + l then 7 else if d < 273 + l then 8
         else if d < 304 + l then 9 else if d < 334 + l then 10 else 11)"

definition DateFromTime :: "int \<Rightarrow> int" where
  "DateFromTime t =
     (let d = DayWithinYear t; l = InLeapYear t; m = MonthFromTime t
      in if m = 0 then d + 1 else if m = 1 then d - 30 else if m = 2 then d - 58 - l
         else if m = 3 then d - 89 - l else if m = 4 then d - 119 - l
         else if m = 5 then d - 150 - l else if m = 6 then d - 180 - l
         else if m = 7 then d - 211 - l else if m = 8 then d - 242 - l
         else if m = 9 then d - 272 - l else if m = 10 then d - 303 - l
         else d - 333 - l)"

definition WeekDay :: "int \<Rightarrow> int" where
  "WeekDay t = (Day t + 4) mod 7"

definition HourFromTime :: "int \<Rightarrow> int" where
  "HourFromTime t = (t div 3600000) mod 24"

definition MinFromTime :: "int \<Rightarrow> int" where
  "MinFromTime t = (t div 60000) mod 60"

definition MakeTime :: "int \<Rightarrow> int \<Rightarrow> int \<Rightarrow> int \<Rightarrow> int" where
  "MakeTime h m s ms = h * 3600000 + m * 60000 + s * 1000 + ms"

text \<open>The number of days before month \<open>mn\<close> (0 to 11) in a year of \<open>diy\<close> days.\<close>

definition DaysBeforeMonth :: "int \<Rightarrow> int \<Rightarrow> int" where
  "DaysBeforeMonth diy mn =
     (let l = (if diy = 366 then 1 else 0)
      in if mn = 0 then 0 else if mn = 1 then 31 else if mn = 2 then 59 + l
         else if mn = 3 then 90 + l else if mn = 4 then 120 + l else if mn = 5 then 151 + l
         else if mn = 6 then 181 + l else if mn = 7 then 212 + l else if mn = 8 then 243 + l
         else if mn = 9 then 273 + l else if mn = 10 then 304 + l else 334 + l)"

definition MakeDay :: "int \<Rightarrow> int \<Rightarrow> int \<Rightarrow> int" where
  "MakeDay year month date =
     (let ym = year + month div 12; mn = month mod 12
      in DayFromYear ym + DaysBeforeMonth (DaysInYear ym) mn + date - 1)"

definition MakeDate :: "int \<Rightarrow> int \<Rightarrow> int" where
  "MakeDate day time = day * msPerDay + time"

definition TimeClip :: "int \<Rightarrow> num" where
  "TimeClip t = (if \<bar>t\<bar> > 8640000000000000 then None else Some t)"

text \<open>
  A \<open>Date\<close> object is its time value, \<open>NaN\<close> for an invalid date. A reference that
  may be \<open>null\<close> is a \<open>date option\<close>.
\<close>

type_synonym date = num

text \<open>
  \<open>new Date(year, month, day)\<close>: a year from 0 to 99 stands for 1900 plus that year.
\<close>

definition MakeFullYear :: "int \<Rightarrow> int" where
  "MakeFullYear y = (if 0 \<le> y \<and> y \<le> 99 then 1900 + y else y)"

definition Date_of_fields :: "int \<Rightarrow> int \<Rightarrow> int \<Rightarrow> date" where
  "Date_of_fields year month day =
     TimeClip (MakeDate (MakeDay (MakeFullYear year) month day) (MakeTime 0 0 0 0))"

definition Date_of_value :: "num \<Rightarrow> date" where
  "Date_of_value v = (case v of None \<Rightarrow> None | Some t \<Rightarrow> TimeClip t)"

definition getTime :: "date \<Rightarrow> num" where
  "getTime d = d"

definition getFullYear :: "date \<Rightarrow> num" where
  "getFullYear d = map_option YearFromTime d"

definition getMonth :: "date \<Rightarrow> num" where
  "getMonth d = map_option MonthFromTime d"

definition getDate :: "date \<Rightarrow> num" where
  "getDate d = map_option DateFromTime d"

definition getDay :: "date \<Rightarrow> num" where
  "getDay d = map_option WeekDay d"

text \<open>
  \<open>new Date(string)\<close>. The model reads the form the upstream API sends,
  \<open>YYYY-MM-DDTHH:mm:ss\<close>, which ECMAScript parses as local time (UTC here). How any
  other string is parsed (other ISO forms, forms with an offset, and whatever the
  engine accepts beyond the standard) is the parameter \<open>other\<close>.
\<close>

definition two_digits :: "char \<Rightarrow> char \<Rightarrow> int" where
  "two_digits a b = int (10 * digit_val a + digit_val b)"

definition iso_fields :: "string \<Rightarrow> (int \<times> int \<times> int \<times> int \<times> int \<times> int) option" where
  "iso_fields s =
     (case s of
        [y1, y2, y3, y4, p1, m1, m2, p2, d1, d2, pT, h1, h2, p3, n1, n2, p4, s1, s2] \<Rightarrow>
          if list_all is_digit [y1, y2, y3, y4, m1, m2, d1, d2, h1, h2, n1, n2, s1, s2]
             \<and> p1 = CHR ''-'' \<and> p2 = CHR ''-'' \<and> pT = CHR ''T''
             \<and> p3 = CHR '':'' \<and> p4 = CHR '':''
          then Some (100 * two_digits y1 y2 + two_digits y3 y4, two_digits m1 m2,
                     two_digits d1 d2, two_digits h1 h2, two_digits n1 n2, two_digits s1 s2)
          else None
      | _ \<Rightarrow> None)"

definition DaysInMonth :: "int \<Rightarrow> int \<Rightarrow> int" where
  "DaysInMonth y m =
     (if m = 2 then (if DaysInYear y = 366 then 29 else 28)
      else if m = 4 \<or> m = 6 \<or> m = 9 \<or> m = 11 then 30 else 31)"

definition valid_fields :: "int \<times> int \<times> int \<times> int \<times> int \<times> int \<Rightarrow> bool" where
  "valid_fields f =
     (case f of (y, m, d, h, n, s) \<Rightarrow>
        1 \<le> m \<and> m \<le> 12 \<and> 1 \<le> d \<and> d \<le> DaysInMonth y m \<and> h \<le> 23 \<and> n \<le> 59 \<and> s \<le> 59)"

definition utc_of_fields :: "int \<times> int \<times> int \<times> int \<times> int \<times> int \<Rightarrow> int" where
  "utc_of_fields f =
     (case f of (y, m, d, h, n, s) \<Rightarrow> MakeDate (MakeDay y (m - 1) d) (MakeTime h n s 0))"

definition Date_parse :: "(string \<Rightarrow> num) \<Rightarrow> string \<Rightarrow> num" where
  "Date_parse other s =
     (case iso_fields s of
        Some f \<Rightarrow> if valid_fields f then Some (utc_of_fields f) else other s
      | None \<Rightarrow> other s)"

definition Date_of_string :: "(string \<Rightarrow> num) \<Rightarrow> string \<Rightarrow> date" where
  "Date_of_string other s = Date_of_value (Date_parse other s)"

text \<open>The test \<open>/\d{2}:\d{2}:\d{2}-/.test(s)\<close>: a match may start anywhere.\<close>

fun time_dash_at :: "string \<Rightarrow> bool" where
  "time_dash_at (a # b # c # d # e # f # g # h # i # _) =
     (is_digit a \<and> is_digit b \<and> c = CHR '':'' \<and> is_digit d \<and> is_digit e \<and> f = CHR '':''
      \<and> is_digit g \<and> is_digit h \<and> i = CHR ''-'')"
| "time_dash_at _ = False"

fun time_dash_test :: "string \<Rightarrow> bool" where
  "time_dash_test [] = False"
| "time_dash_test (c # cs) = (time_dash_at (c # cs) \<or> time_dash_test cs)"

section \<open>lib/9292Api.js\<close>

subsection \<open>\<open>_getAmsterdamOffset\<close> and \<open>_parseDateTime\<close>\<close>

text \<open>A comparison with \<open>NaN\<close> is false.\<close>

definition num_ge :: "int \<Rightarrow> num \<Rightarrow> bool" where
  "num_ge a b = (case b of None \<Rightarrow> False | Some n \<Rightarrow> a \<ge> n)"

definition num_lt :: "int \<Rightarrow> num \<Rightarrow> bool" where
  "num_lt a b = (case b of None \<Rightarrow> False | Some n \<Rightarrow> a < n)"

definition getAmsterdamOffset :: "date \<Rightarrow> int" where
  "getAmsterdamOffset date =
     (case (getFullYear date, getMonth date, getDate date) of
        (Some year, Some month, Some day) \<Rightarrow>
          (let marchLast = Date_of_fields year 2 31;
               dstStart = map_option (\<lambda>w. 31 - w) (getDay marchLast);
               octLast = Date_of_fields year 9 31;
               dstEnd = map_option (\<lambda>w. 31 - w) (getDay octLast);
               isDST = ((month > 2 \<and> month < 9)
                        \<or> (month = 2 \<and> num_ge day dstStart)
                        \<or> (month = 9 \<and> num_lt day dstEnd))
           in if isDST then 120 else 60)
      | _ \<Rightarrow> 60)"

definition parseDateTime :: "(string \<Rightarrow> num) \<Rightarrow> string option \<Rightarrow> date option" where
  "parseDateTime other datetime =
     (case datetime of
        None \<Rightarrow> None
      | Some s \<Rightarrow>
          if s = [] then None
          else
            let date = Date_of_string other s
            in if \<not> includes_str s ''Z'' \<and> \<not> includes_str s ''+'' \<and> \<not> time_dash_test s
               then
                 let amsterdamOffset = getAmsterdamOffset date
                 in Some (Date_of_value
                            (map_option (\<lambda>t. t - amsterdamOffset * 60 * 1000) (getTime date)))
               else Some date)"

subsection \<open>The canonical departure and the helpers that build it\<close>

datatype status = Planned | Passed | Cancelled | Unknown

datatype transport = Bus | Tram | Metro | Train | Ferry

definition mapStatus :: "char String_prototype \<Rightarrow> string \<Rightarrow> status" where
  "mapStatus sp s =
     (let u = toUpperCase sp s
      in if u = ''PLANNED'' \<or> u = ''DRIVING'' \<or> u = ''ARRIVED'' then Planned
         else if u = ''PASSED'' then Passed
         else if u = ''CANCEL'' then Cancelled
         else Unknown)"

definition mapTransportType :: "char String_prototype \<Rightarrow> string \<Rightarrow> transport" where
  "mapTransportType sp s =
     (let l = toLowerCase sp s
      in if l = ''bus'' then Bus
         else if l = ''tram'' then Tram
         else if l = ''metro'' then Metro
         else if l = ''trein'' \<or> l = ''train'' then Train
         else if l = ''ferry'' \<or> l = ''veer'' then Ferry
         else Bus)"

text \<open>\<open>_formatTime\<close>: hours and minutes, two digits each, of the host's (UTC) clock.\<close>

definition pad2 :: "int \<Rightarrow> string" where
  "pad2 n = [digit_char (nat n div 10), digit_char (nat n mod 10)]"

definition formatTime :: "date \<Rightarrow> string" where
  "formatTime d =
     (case d of None \<Rightarrow> ''Invalid Date''
      | Some t \<Rightarrow> pad2 (HourFromTime t) @ '':'' @ pad2 (MinFromTime t))"

text \<open>A raw departure record of the upstream API: every field may be missing.\<close>

record raw_departure =
  TargetDepartureTime :: "string option"
  ExpectedDepartureTime :: "string option"
  TripStopStatus :: "string option"
  LinePublicNumber :: "string option"
  DestinationName50 :: "string option"
  DestinationName :: "string option"
  TransportType :: "string option"
  OperatorCode :: "string option"

record raw_stop =
  Passes :: "raw_departure list option"

record departure =
  line :: string
  destination :: string
  status :: status
  planned_time :: string
  expected_time :: string
  delay_minutes :: num
  transport_type :: transport
  operator :: string
  timestamp :: int
  uid :: string

text \<open>\<open>d?.getTime()\<close> on a reference that may be \<open>null\<close>: \<open>undefined\<close> is falsy like \<open>NaN\<close>.\<close>

definition opt_time :: "date option \<Rightarrow> num" where
  "opt_time d = (case d of None \<Rightarrow> None | Some v \<Rightarrow> getTime v)"

text \<open>
  One pass of the inner loop of \<open>getDepartures\<close>: \<open>None\<close> when the record is skipped
  by \<open>continue\<close>, the departure pushed otherwise.
\<close>

definition departure_of ::
  "char String_prototype \<Rightarrow> (string \<Rightarrow> num) \<Rightarrow> string \<Rightarrow> raw_departure \<Rightarrow> departure option" where
  "departure_of sp other stopAreaCode raw =
     (let planned = parseDateTime other (TargetDepartureTime raw);
          expected = parseDateTime other (ExpectedDepartureTime raw);
          delayMinutes =
            (case (planned, expected) of
               (Some p, Some e) \<Rightarrow>
                 (case (getTime e, getTime p) of
                    (Some te, Some tp) \<Rightarrow> Some (Math_round_quot (te - tp) 60000)
                  | _ \<Rightarrow> None)
             | _ \<Rightarrow> Some 0);
          st = mapStatus sp (or_str (TripStopStatus raw) []);
          ts = num_or (opt_time expected) (num_or (opt_time planned) 0)
      in if st = Passed \<or> ts = 0 then None
         else Some \<lparr>
           line = or_str (LinePublicNumber raw) [],
           destination = or_str (or_else (DestinationName50 raw) (DestinationName raw)) [],
           status = st,
           planned_time = (case planned of None \<Rightarrow> [] | Some p \<Rightarrow> formatTime p),
           expected_time = (case expected of None \<Rightarrow> [] | Some e \<Rightarrow> formatTime e),
           delay_minutes = delayMinutes,
           transport_type = mapTransportType sp (or_str (TransportType raw) []),
           operator = or_str (OperatorCode raw) [],
           timestamp = ts,
           uid = stopAreaCode @ ''_'' @ template (LinePublicNumber raw) @ ''_''
                 @ template (or_else (DestinationName50 raw) (DestinationName raw)) @ ''_''
                 @ show_int (num_or (opt_time planned) 0) \<rparr>)"

subsection \<open>The client object and \<open>getDepartures\<close>\<close>

text \<open>
  \<open>_fetch\<close> rejects with a timeout, with a network error or with "Invalid JSON
  response"; otherwise it resolves with the parsed payload. The payload of
  \<open>/stopareacode/CODE\<close> is an object from stop-area codes to the stops of the area
  (in the order \<open>Object.values\<close> lists them), or \<open>null\<close>.
\<close>

datatype fetch_error = RequestTimeout | InvalidJSON | NetworkError string

datatype departures_json = JsonNull | JsonObject "string \<Rightarrow> raw_stop list option"

datatype js_error = Rejected fetch_error | TypeError

record cache_entry =
  time :: int
  data :: "departure list"

record 'c stop_area =
  TimingPointName :: "'c list option"
  TimingPointTown :: "'c list option"
  StopAreaCode :: "'c list option"

text \<open>
  The host object \<open>homey\<close>: the two settings keys the client uses, and what was
  passed to \<open>homey.error\<close>.
\<close>

record 'c homey =
  settings_stopAreasCache :: "'c stop_area list option"
  settings_stopAreasCacheTime :: num
  error_log :: "js_error list"

record 'c OVApi =
  homey :: "'c homey"
  stopAreasCache :: "'c stop_area list option"
  stopAreasCacheTime :: int
  departuresCache :: "string \<Rightarrow> cache_entry option"

definition STOP_AREAS_CACHE_TTL :: int where
  "STOP_AREAS_CACHE_TTL = 24 * 60 * 60 * 1000"

definition DEPARTURES_CACHE_TTL :: int where
  "DEPARTURES_CACHE_TTL = 30 * 1000"

text \<open>The constructor.\<close>

definition new_OVApi :: "'c homey \<Rightarrow> 'c OVApi" where
  "new_OVApi h = \<lparr> homey = h, stopAreasCache = None, stopAreasCacheTime = 0,
                   departuresCache = (\<lambda>_. None) \<rparr>"

definition log_error :: "js_error \<Rightarrow> 'c OVApi \<Rightarrow> 'c OVApi" where
  "log_error e api = api\<lparr> homey := (homey api)\<lparr> error_log := error_log (homey api) @ [e] \<rparr> \<rparr>"

text \<open>The two nested loops over the stops of the area and the passes of each stop.\<close>

definition collect_departures ::
  "char String_prototype \<Rightarrow> (string \<Rightarrow> num) \<Rightarrow> string \<Rightarrow> raw_stop list \<Rightarrow> departure list" where
  "collect_departures sp other stopAreaCode stopData =
     concat (map (\<lambda>stop. List.map_filter (departure_of sp other stopAreaCode)
                            (case Passes stop of None \<Rightarrow> [] | Some ps \<Rightarrow> ps))
                 stopData)"

text \<open>
  The \<open>try\<close> block of \<open>getDepartures\<close>: \<open>Inl\<close> is the exception it throws, \<open>Inr\<close>
  the value it returns with the updated client. \<open>fetched\<close> is how the call of
  \<open>_fetch\<close> ends. The sort is stable, as \<open>Array.prototype.sort\<close> is.
\<close>

definition getDepartures_try ::
  "char String_prototype \<Rightarrow> (string \<Rightarrow> num) \<Rightarrow> fetch_error + departures_json \<Rightarrow> int \<Rightarrow> string
   \<Rightarrow> nat \<Rightarrow> 'c OVApi \<Rightarrow> js_error + departure list \<times> 'c OVApi" where
  "getDepartures_try sp other fetched now stopAreaCode limit api =
     (case fetched of
        Inl e \<Rightarrow> Inl (Rejected e)
      | Inr JsonNull \<Rightarrow> Inl TypeError
      | Inr (JsonObject obj) \<Rightarrow>
          (let stopData = (case obj stopAreaCode of None \<Rightarrow> [] | Some stops \<Rightarrow> stops);
               departures = sort_key timestamp (collect_departures sp other stopAreaCode stopData)
           in Inr (take limit departures,
                   api\<lparr> departuresCache :=
                          (departuresCache api)
                            (stopAreaCode \<mapsto> \<lparr> time = now, data = departures \<rparr>) \<rparr>)))"

text \<open>
  \<open>getDepartures(stopAreaCode, limit = 10)\<close>. The limit is a count: the callers pass
  none or 50. \<open>now\<close> is what \<open>Date.now()\<close> returns.
\<close>

definition getDepartures ::
  "char String_prototype \<Rightarrow> (string \<Rightarrow> num) \<Rightarrow> fetch_error + departures_json \<Rightarrow> int \<Rightarrow> string
   \<Rightarrow> nat option \<Rightarrow> 'c OVApi \<Rightarrow> departure list \<times> 'c OVApi" where
  "getDepartures sp other fetched now stopAreaCode limit_arg api =
     (let limit = (case limit_arg of None \<Rightarrow> 10 | Some l \<Rightarrow> l)
      in if stopAreaCode = [] then ([], api)
         else
           (case (case departuresCache api stopAreaCode of
                    None \<Rightarrow> None
                  | Some cached \<Rightarrow>
                      if now - time cached < DEPARTURES_CACHE_TTL then Some cached else None) of
              Some cached \<Rightarrow> (take limit (data cached), api)
            | None \<Rightarrow>
                (case getDepartures_try sp other fetched now stopAreaCode limit api of
                   Inr r \<Rightarrow> r
                 | Inl e \<Rightarrow> ([], log_error e api))))"

subsection \<open>\<open>getMinutesUntil\<close>\<close>

definition getMinutesUntil :: "int \<Rightarrow> departure \<Rightarrow> int" where
  "getMinutesUntil now dep =
     (let departureTime = timestamp dep
      in max 0 (Math_round_quot (departureTime - now) 60000))"

subsection \<open>\<open>getAllStopAreas\<close> and \<open>searchLocations\<close>\<close>

text \<open>
  \<open>fetched\<close> is how the call of \<open>_fetch('/stopareacode/')\<close> ends: the values of the
  payload object in the order \<open>Object.values\<close> lists them, \<open>None\<close> for a falsy payload.
\<close>

definition getAllStopAreas ::
  "fetch_error + 'c stop_area list option \<Rightarrow> int \<Rightarrow> 'c OVApi \<Rightarrow> 'c stop_area list \<times> 'c OVApi" where
  "getAllStopAreas fetched now api =
     (case (case stopAreasCache api of
              None \<Rightarrow> None
            | Some c \<Rightarrow> if now - stopAreasCacheTime api < STOP_AREAS_CACHE_TTL then Some c else None) of
        Some c \<Rightarrow> (c, api)
      | None \<Rightarrow>
          (case (case (settings_stopAreasCache (homey api), settings_stopAreasCacheTime (homey api)) of
                   (Some cached, Some cachedTime) \<Rightarrow>
                     if cachedTime \<noteq> 0 \<and> now - cachedTime < STOP_AREAS_CACHE_TTL
                     then Some (cached, cachedTime) else None
                 | _ \<Rightarrow> None) of
             Some (cached, cachedTime) \<Rightarrow>
               (cached, api\<lparr> stopAreasCache := Some cached, stopAreasCacheTime := cachedTime \<rparr>)
           | None \<Rightarrow>
               (case fetched of
                  Inr payload \<Rightarrow>
                    (let stopAreas = (case payload of None \<Rightarrow> [] | Some vs \<Rightarrow> vs)
                     in (stopAreas,
                         api\<lparr> stopAreasCache := Some stopAreas, stopAreasCacheTime := now,
                              homey := (homey api)\<lparr> settings_stopAreasCache := Some stopAreas,
                                                      settings_stopAreasCacheTime := Some now \<rparr> \<rparr>))
                | Inl e \<Rightarrow>
                    ((case stopAreasCache api of None \<Rightarrow> [] | Some c \<Rightarrow> c),
                     log_error (Rejected e) api))))"

record 'c location =
  id_str :: "'c list"
  name :: "'c list"
  description :: "'c list"

definition stop_matches :: "'c String_prototype \<Rightarrow> 'c list \<Rightarrow> 'c stop_area \<Rightarrow> bool" where
  "stop_matches sp queryLower stop =
     (let nm = toLowerCase sp (or_str (TimingPointName stop) []);
          town = toLowerCase sp (or_str (TimingPointTown stop) []);
          code = toLowerCase sp (or_str (StopAreaCode stop) [])
      in includes_str nm queryLower \<or> includes_str town queryLower \<or> includes_str code queryLower)"

definition location_of :: "'c stop_area \<Rightarrow> 'c location" where
  "location_of stop =
     \<lparr> id_str = or_str (StopAreaCode stop) [],
       name = or_str (TimingPointName stop) [],
       description = or_str (TimingPointTown stop) [] \<rparr>"

text \<open>\<open>searchLocations(query)\<close>; the query may be missing.\<close>

definition searchLocations ::
  "'c String_prototype \<Rightarrow> fetch_error + 'c stop_area list option \<Rightarrow> int \<Rightarrow> 'c list option
   \<Rightarrow> 'c OVApi \<Rightarrow> 'c location list \<times> 'c OVApi" where
  "searchLocations sp fetched now query api =
     (case query of
        None \<Rightarrow> ([], api)
      | Some q \<Rightarrow>
          if q = [] \<or> length q < 2 then ([], api)
          else
            (let queryLower = toLowerCase sp q;
                 (allStops, api') = getAllStopAreas fetched now api
             in (map location_of (take 15 (filter (stop_matches sp queryLower) allStops)), api')))"

section \<open>app.js\<close>

text \<open>
  The arguments of one configured trigger instance, as \<open>getArgumentValues\<close> lists
  them: \<open>args.station?.id\<close>, \<open>args.destination?.name\<close>, \<open>args.minutes\<close> (departure
  soon), \<open>args.min_delay\<close> (departure delayed) and \<open>args.trigger_mode\<close>.
\<close>

record trigger_args =
  station_id :: "string option"
  destination_name :: "string option"
  minutes :: "int option"
  min_delay :: "int option"
  trigger_mode :: "string option"

datatype trigger_kind = Soon | Delayed

text \<open>
  One call of \<open>trigger(tokens, state)\<close> on a trigger card. \<open>tok_minutes_until\<close> is
  present on the departure-soon card, \<open>tok_delay_minutes\<close> on the departure-delayed
  card. \<open>fired_for\<close> is not part of the call: it records the departure the call was
  made for, so that theorems can speak of it. The awaited call is taken to resolve: a
  rejection would leave the loop before the key is added and end the poll in the
  \<open>catch\<close> of \<open>_checkTriggers\<close>.
\<close>

record firing =
  trigger_card :: trigger_kind
  tok_line :: string
  tok_destination :: string
  tok_minutes_until :: "int option"
  tok_delay_minutes :: "num option"
  tok_planned_time :: string
  tok_expected_time :: string
  state_stationId :: string
  state_destination :: string
  fired_for :: departure

text \<open>
  The app object: the client, the two sets of \<open>triggeredDepartures\<close> (a JavaScript
  \<open>Set\<close> keeps insertion order: a list without repetition), and the calls of
  \<open>trigger\<close> made so far.
\<close>

record 'c app =
  api :: "'c OVApi"
  triggered_soon :: "string list"
  triggered_delayed :: "string list"
  fired :: "firing list"

definition set_add :: "string \<Rightarrow> string list \<Rightarrow> string list" where
  "set_add k ks = (if k \<in> set ks then ks else ks @ [k])"

definition onInit :: "'c homey \<Rightarrow> 'c app" where
  "onInit h = \<lparr> api = new_OVApi h, triggered_soon = [], triggered_delayed = [], fired = [] \<rparr>"

text \<open>
  What one poll reads from outside: the clock, how \<open>_fetch\<close> ends for each stop-area
  code, the host's parser of date strings and the host's case conversions. The clock is
  read once per poll: the calls of \<open>Date.now()\<close> within one poll are taken to return
  the same value.
\<close>

record env =
  env_now :: int
  env_fetch :: "string \<Rightarrow> fetch_error + departures_json"
  env_parse :: "string \<Rightarrow> num"
  env_strings :: "char String_prototype"

text \<open>\<open>args.minutes || 5\<close> and \<open>args.min_delay || 5\<close>.\<close>

definition soon_threshold :: "trigger_args \<Rightarrow> int" where
  "soon_threshold args = num_or (minutes args) 5"

definition delayed_minDelay :: "trigger_args \<Rightarrow> int" where
  "delayed_minDelay args = num_or (min_delay args) 5"

text \<open>The loop of \<open>_checkDepartureSoonTrigger\<close> over the departures.\<close>

fun soon_loop ::
  "char String_prototype \<Rightarrow> int \<Rightarrow> trigger_args \<Rightarrow> string \<Rightarrow> string \<Rightarrow> int \<Rightarrow> departure list
   \<Rightarrow> 'c app \<Rightarrow> 'c app" where
  "soon_loop sp now args sid destinationLower threshold [] a = a"
| "soon_loop sp now args sid destinationLower threshold (dep # rest) a =
     (if destinationLower \<noteq> [] \<and> \<not> includes_str (toLowerCase sp (destination dep)) destinationLower
      then soon_loop sp now args sid destinationLower threshold rest a
      else
        let minutesUntil = getMinutesUntil now dep
        in if minutesUntil \<le> threshold
           then
             let triggerKey = ''soon_'' @ uid dep
             in if trigger_mode args = Some ''once'' \<and> triggerKey \<in> set (triggered_soon a)
                then soon_loop sp now args sid destinationLower threshold rest a
                else a\<lparr> fired := fired a @
                          [\<lparr> trigger_card = Soon, tok_line = line dep, tok_destination = destination dep,
                             tok_minutes_until = Some minutesUntil, tok_delay_minutes = None,
                             tok_planned_time = planned_time dep,
                             tok_expected_time = expected_time dep,
                             state_stationId = sid, state_destination = destination dep,
                             fired_for = dep \<rparr>],
                        triggered_soon := set_add triggerKey (triggered_soon a) \<rparr>
           else soon_loop sp now args sid destinationLower threshold rest a)"

definition checkDepartureSoonTrigger :: "env \<Rightarrow> trigger_args \<Rightarrow> 'c app \<Rightarrow> 'c app" where
  "checkDepartureSoonTrigger e args a =
     (case station_id args of
        None \<Rightarrow> a
      | Some sid \<Rightarrow>
          if sid = [] then a
          else
            (let (departures, api') =
                   getDepartures (env_strings e) (env_parse e) (env_fetch e sid) (env_now e) sid
                     None (api a);
                 destinationLower = toLowerCase (env_strings e) (or_str (destination_name args) []);
                 threshold = soon_threshold args
             in soon_loop (env_strings e) (env_now e) args sid destinationLower threshold departures
                  (a\<lparr> api := api' \<rparr>)))"

text \<open>
  The loop of \<open>_checkDepartureDelayedTrigger\<close>. \<open>dep.delay_minutes > minDelay\<close> is
  false for \<open>NaN\<close>.
\<close>

fun delayed_loop ::
  "char String_prototype \<Rightarrow> trigger_args \<Rightarrow> string \<Rightarrow> string \<Rightarrow> int \<Rightarrow> departure list
   \<Rightarrow> 'c app \<Rightarrow> 'c app" where
  "delayed_loop sp args sid destinationLower minDelay [] a = a"
| "delayed_loop sp args sid destinationLower minDelay (dep # rest) a =
     (if destinationLower \<noteq> [] \<and> \<not> includes_str (toLowerCase sp (destination dep)) destinationLower
      then delayed_loop sp args sid destinationLower minDelay rest a
      else if (case delay_minutes dep of None \<Rightarrow> False | Some d \<Rightarrow> d > minDelay)
      then
        let triggerKey = ''delayed_'' @ uid dep
        in if trigger_mode args = Some ''once'' \<and> triggerKey \<in> set (triggered_delayed a)
           then delayed_loop sp args sid destinationLower minDelay rest a
           else a\<lparr> fired := fired a @
                     [\<lparr> trigger_card = Delayed, tok_line = line dep, tok_destination = destination dep,
                        tok_minutes_until = None, tok_delay_minutes = Some (delay_minutes dep),
                        tok_planned_time = planned_time dep,
                        tok_expected_time = expected_time dep,
                        state_stationId = sid, state_destination = destination dep,
                        fired_for = dep \<rparr>],
                   triggered_delayed := set_add triggerKey (triggered_delayed a) \<rparr>
      else delayed_loop sp args sid destinationLower minDelay rest a)"

definition checkDepartureDelayedTrigger :: "env \<Rightarrow> trigger_args \<Rightarrow> 'c app \<Rightarrow> 'c app" where
  "checkDepartureDelayedTrigger e args a =
     (case station_id args of
        None \<Rightarrow> a
      | Some sid \<Rightarrow>
          if sid = [] then a
          else
            (let (departures, api') =
                   getDepartures (env_strings e) (env_parse e) (env_fetch e sid) (env_now e) sid
                     None (api a);
                 destinationLower = toLowerCase (env_strings e) (or_str (destination_name args) []);
                 minDelay = delayed_minDelay args
             in delayed_loop (env_strings e) args sid destinationLower minDelay departures
                  (a\<lparr> api := api' \<rparr>)))"

text \<open>
  \<open>_cleanupTriggeredDepartures\<close>: a key is deleted when the number after its last
  underscore is truthy and less than one hour before now.
\<close>

definition key_timestamp :: "string \<Rightarrow> num" where
  "key_timestamp key = (let parts = split_on CHR ''_'' key in parseInt10 (last parts))"

definition key_deleted :: "int \<Rightarrow> string \<Rightarrow> bool" where
  "key_deleted oneHourAgo key =
     (case key_timestamp key of None \<Rightarrow> False | Some t \<Rightarrow> t \<noteq> 0 \<and> t < oneHourAgo)"

definition cleanupTriggeredDepartures :: "int \<Rightarrow> 'c app \<Rightarrow> 'c app" where
  "cleanupTriggeredDepartures now a =
     (let oneHourAgo = now - 60 * 60 * 1000
      in a\<lparr> triggered_soon := filter (\<lambda>key. \<not> key_deleted oneHourAgo key) (triggered_soon a),
             triggered_delayed := filter (\<lambda>key. \<not> key_deleted oneHourAgo key) (triggered_delayed a) \<rparr>)"

text \<open>
  One poll, \<open>_checkTriggers\<close>: every departure-soon instance, every departure-delayed
  instance, then the cleanup. The two lists are what \<open>getArgumentValues\<close> returns.
\<close>

definition checkTriggers :: "env \<Rightarrow> trigger_args list \<Rightarrow> trigger_args list \<Rightarrow> 'c app \<Rightarrow> 'c app" where
  "checkTriggers e soonArgs delayedArgs a =
     cleanupTriggeredDepartures (env_now e)
       (foldl (\<lambda>s args. checkDepartureDelayedTrigger e args s)
          (foldl (\<lambda>s args. checkDepartureSoonTrigger e args s) a soonArgs)
          delayedArgs)"

text \<open>The polls of the interval timer, one after the other.\<close>

fun run_polls :: "(env \<times> trigger_args list \<times> trigger_args list) list \<Rightarrow> 'c app \<Rightarrow> 'c app" where
  "run_polls [] a = a"
| "run_polls ((e, soonArgs, delayedArgs) # ps) a = run_polls ps (checkTriggers e soonArgs delayedArgs a)"

section \<open>Predicates used to state the properties\<close>

text \<open>
  \<open>getDepartures\<close> calls \<open>_fetch\<close> when the stop-area code is not empty and the cache
  holds no entry for it that is younger than 30 seconds.
\<close>

definition fetch_attempted :: "'c OVApi \<Rightarrow> int \<Rightarrow> string \<Rightarrow> bool" where
  "fetch_attempted ov now code =
     (code \<noteq> [] \<and> (case departuresCache ov code of None \<Rightarrow> True
                     | Some c \<Rightarrow> \<not> now - time c < DEPARTURES_CACHE_TTL))"

text \<open>No cached departure has passed or lacks a timestamp.\<close>

definition cache_live :: "'c OVApi \<Rightarrow> bool" where
  "cache_live ov =
     (\<forall>code c. departuresCache ov code = Some c \<longrightarrow>
        (\<forall>d \<in> set (data c). status d \<noteq> Passed \<and> timestamp d \<noteq> 0))"

text \<open>
  A departure qualifies for the departure-soon trigger when it passes the destination
  filter and its \<open>minutesUntil\<close> is at most the threshold; for the departure-delayed
  trigger when it passes the filter and its delay exceeds the minimum delay.
\<close>

definition soon_qualifies :: "char String_prototype \<Rightarrow> int \<Rightarrow> string \<Rightarrow> int \<Rightarrow> departure \<Rightarrow> bool" where
  "soon_qualifies sp now destinationLower threshold dep =
     ((destinationLower = [] \<or> includes_str (toLowerCase sp (destination dep)) destinationLower)
      \<and> getMinutesUntil now dep \<le> threshold)"

definition delayed_qualifies :: "char String_prototype \<Rightarrow> string \<Rightarrow> int \<Rightarrow> departure \<Rightarrow> bool" where
  "delayed_qualifies sp destinationLower minDelay dep =
     ((destinationLower = [] \<or> includes_str (toLowerCase sp (destination dep)) destinationLower)
      \<and> (case delay_minutes dep of None \<Rightarrow> False | Some d \<Rightarrow> d > minDelay))"

text \<open>The calls of \<open>trigger\<close> made between two states of the app.\<close>

definition new_firings :: "'c app \<Rightarrow> 'c app \<Rightarrow> firing list" where
  "new_firings a a' = drop (length (fired a)) (fired a')"

text \<open>The list \<open>getDepartures\<close> hands to a trigger check.\<close>

definition polled_departures :: "env \<Rightarrow> string \<Rightarrow> 'c app \<Rightarrow> departure list" where
  "polled_departures e sid a =
     fst (getDepartures (env_strings e) (env_parse e) (env_fetch e sid) (env_now e) sid None (api a))"

text \<open>
  The normalizer as the specification words it: the last Sunday of March and of October
  of the year, daylight-saving time from the first (inclusive) up to the day before the
  second, by calendar day; the numeric fields read as UTC wall-clock, less 120 minutes in
  daylight-saving time and 60 minutes otherwise. Months count from 1 here.
\<close>

definition spec_is_sunday :: "int \<Rightarrow> int \<Rightarrow> int \<Rightarrow> bool" where
  "spec_is_sunday y m d = (WeekDay (utc_of_fields (y, m, d, 0, 0, 0)) = 0)"

definition spec_last_sunday :: "int \<Rightarrow> int \<Rightarrow> int" where
  "spec_last_sunday y m = last (filter (spec_is_sunday y m) [1..31])"

definition spec_dst :: "int \<Rightarrow> int \<Rightarrow> int \<Rightarrow> bool" where
  "spec_dst y m d =
     ((3 < m \<and> m < 10) \<or> (m = 3 \<and> spec_last_sunday y 3 \<le> d)
      \<or> (m = 10 \<and> d < spec_last_sunday y 10))"

definition spec_normalize :: "int \<times> int \<times> int \<times> int \<times> int \<times> int \<Rightarrow> int" where
  "spec_normalize f =
     (case f of (y, m, d, h, n, s) \<Rightarrow>
        utc_of_fields f - (if spec_dst y m d then 120 else 60) * 60 * 1000)"

text \<open>How often a trigger kind has fired for a uid.\<close>

definition count_fired :: "trigger_kind \<Rightarrow> string \<Rightarrow> 'c app \<Rightarrow> nat" where
  "count_fired k u a =
     length (filter (\<lambda>f. trigger_card f = k \<and> uid (fired_for f) = u) (fired a))"

text \<open>
  A run of polls in which every instance is in once mode and no cleanup deletes the two
  keys of the uid \<open>u\<close>.
\<close>

fun once_and_kept :: "string \<Rightarrow> (env \<times> trigger_args list \<times> trigger_args list) list \<Rightarrow> bool" where
  "once_and_kept u [] = True"
| "once_and_kept u ((e, soonArgs, delayedArgs) # ps) =
     ((\<forall>args \<in> set soonArgs \<union> set delayedArgs. trigger_mode args = Some ''once'')
      \<and> \<not> key_deleted (env_now e - 60 * 60 * 1000) (''soon_'' @ u)
      \<and> \<not> key_deleted (env_now e - 60 * 60 * 1000) (''delayed_'' @ u)
      \<and> once_and_kept u ps)"

text \<open>A uid that has fired once has its key in the set of that kind, and none has fired twice.\<close>

definition once_inv :: "string \<Rightarrow> 'c app \<Rightarrow> bool" where
  "once_inv u a \<longleftrightarrow>
     (count_fired Soon u a = 0 \<or> count_fired Soon u a = 1 \<and> ''soon_'' @ u \<in> set (triggered_soon a))
     \<and> (count_fired Delayed u a = 0
         \<or> count_fired Delayed u a = 1 \<and> ''delayed_'' @ u \<in> set (triggered_delayed a))"

section \<open>Concrete inputs\<close>

text \<open>
  The host's case conversions on the strings of code units below 256, for the concrete
  inputs. Unicode gives these code units the following mappings. \<open>toLowerCase\<close>
  replaces \<open>A\<close> to \<open>Z\<close> and the capital letters from \<open>0xC0\<close> to \<open>0xDE\<close> (the
  multiplication sign \<open>0xD7\<close> is none) by the letter 32 places on. \<open>toUpperCase\<close>
  replaces \<open>a\<close> to \<open>z\<close> and the small letters from \<open>0xE0\<close> to \<open>0xFE\<close> (the division sign
  \<open>0xF7\<close> is none) by the letter 32 places back, and the sharp s \<open>0xDF\<close> by \<open>SS\<close>. The
  capitals of the micro sign \<open>0xB5\<close> and of \<open>0xFF\<close> are not below 256: the two are left
  as they are here, and no concrete input contains them.
\<close>

definition upper_letters :: string where
  "upper_letters = ''ABCDEFGHIJKLMNOPQRSTUVWXYZ'' @
       [CHR 0xC0, CHR 0xC1, CHR 0xC2, CHR 0xC3, CHR 0xC4, CHR 0xC5, CHR 0xC6, CHR 0xC7,
        CHR 0xC8, CHR 0xC9, CHR 0xCA, CHR 0xCB, CHR 0xCC, CHR 0xCD, CHR 0xCE, CHR 0xCF,
        CHR 0xD0, CHR 0xD1, CHR 0xD2, CHR 0xD3, CHR 0xD4, CHR 0xD5, CHR 0xD6, CHR 0xD8,
        CHR 0xD9, CHR 0xDA, CHR 0xDB, CHR 0xDC, CHR 0xDD, CHR 0xDE]"

definition lower_letters :: string where
  "lower_letters = ''abcdefghijklmnopqrstuvwxyz'' @
       [CHR 0xE0, CHR 0xE1, CHR 0xE2, CHR 0xE3, CHR 0xE4, CHR 0xE5, CHR 0xE6, CHR 0xE7,
        CHR 0xE8, CHR 0xE9, CHR 0xEA, CHR 0xEB, CHR 0xEC, CHR 0xED, CHR 0xEE, CHR 0xEF,
        CHR 0xF0, CHR 0xF1, CHR 0xF2, CHR 0xF3, CHR 0xF4, CHR 0xF5, CHR 0xF6, CHR 0xF8,
        CHR 0xF9, CHR 0xFA, CHR 0xFB, CHR 0xFC, CHR 0xFD, CHR 0xFE]"

definition lower_char :: "char \<Rightarrow> char" where
  "lower_char c = (case map_of (zip upper_letters lower_letters) c of None \<Rightarrow> c | Some l \<Rightarrow> l)"

definition upper_char :: "char \<Rightarrow> string" where
  "upper_char c =
     (if c = CHR 0xDF then ''SS''
      else case map_of (zip lower_letters upper_letters) c of None \<Rightarrow> [c] | Some u \<Rightarrow> [u])"

definition latin1 :: "char String_prototype" where
  "latin1 = \<lparr> toLowerCase = map lower_char, toUpperCase = (\<lambda>s. concat (map upper_char s)) \<rparr>"

definition dep_example :: departure where
  "dep_example = \<lparr> line = ''5'', destination = ''Utrecht'', status = Planned,
     planned_time = ''10:00'', expected_time = ''10:02'', delay_minutes = Some 2,
     transport_type = Bus, operator = ''GVB'', timestamp = 1000, uid = ''ut_5_Utrecht_880'' \<rparr>"

definition homey0 :: "char homey" where
  "homey0 = \<lparr> settings_stopAreasCache = None, settings_stopAreasCacheTime = None, error_log = [] \<rparr>"

definition no_other :: "string \<Rightarrow> num" where
  "no_other s = None"

definition raw_a :: raw_departure where
  "raw_a = \<lparr> TargetDepartureTime = Some ''2025-06-14T13:31:00'',
     ExpectedDepartureTime = Some ''2025-06-14T13:35:00'',
     TripStopStatus = Some ''DRIVING'', LinePublicNumber = Some ''5'',
     DestinationName50 = Some ''Utrecht Centraal'', DestinationName = None,
     TransportType = Some ''TRAM'', OperatorCode = Some ''GVB'' \<rparr>"

definition raw_b :: raw_departure where
  "raw_b = \<lparr> TargetDepartureTime = Some ''2025-06-14T13:20:00'',
     ExpectedDepartureTime = None,
     TripStopStatus = Some ''PLANNED'', LinePublicNumber = Some ''12'',
     DestinationName50 = None, DestinationName = Some ''Amstelveen'',
     TransportType = Some ''BUS'', OperatorCode = Some ''GVB'' \<rparr>"

definition raw_passed :: raw_departure where
  "raw_passed = raw_a\<lparr> TripStopStatus := Some ''passed'' \<rparr>"

definition raw_untimed :: raw_departure where
  "raw_untimed = raw_b\<lparr> TargetDepartureTime := None \<rparr>"

definition json_ab :: departures_json where
  "json_ab = JsonObject (\<lambda>k. if k = ''asd''
       then Some [\<lparr> Passes = Some [raw_a, raw_passed] \<rparr>, \<lparr> Passes = None \<rparr>,
                  \<lparr> Passes = Some [raw_untimed, raw_b] \<rparr>]
       else None)"

definition dep_a :: departure where
  "dep_a = \<lparr> line = ''5'', destination = ''Utrecht Centraal'', status = Planned,
     planned_time = ''11:31'', expected_time = ''11:35'', delay_minutes = Some 4,
     transport_type = Tram, operator = ''GVB'', timestamp = 1749900900000,
     uid = ''asd_5_Utrecht Centraal_1749900660000'' \<rparr>"

definition dep_b :: departure where
  "dep_b = \<lparr> line = ''12'', destination = ''Amstelveen'', status = Planned,
     planned_time = ''11:20'', expected_time = [], delay_minutes = Some 0,
     transport_type = Bus, operator = ''GVB'', timestamp = 1749900000000,
     uid = ''asd_12_Amstelveen_1749900000000'' \<rparr>"

definition args_asd :: trigger_args where
  "args_asd = \<lparr> station_id = Some ''asd'', destination_name = None, minutes = Some 10,
     min_delay = Some 2, trigger_mode = Some ''once'' \<rparr>"

definition env_down :: env where
  "env_down = \<lparr> env_now = 1749900000000, env_fetch = (\<lambda>_. Inl RequestTimeout), env_parse = no_other,
     env_strings = latin1 \<rparr>"

definition stop_amstelveen :: "char stop_area" where
  "stop_amstelveen = \<lparr> TimingPointName = Some ''Amstelveen Busstation'',
     TimingPointTown = Some ''Amstelveen'', StopAreaCode = Some ''amvbus'' \<rparr>"

definition stop_centraal :: "char stop_area" where
  "stop_centraal = \<lparr> TimingPointName = Some ''Amsterdam Centraal'',
     TimingPointTown = Some ''Amsterdam'', StopAreaCode = Some ''asd'' \<rparr>"

definition stop_utrecht :: "char stop_area" where
  "stop_utrecht = \<lparr> TimingPointName = Some ''Utrecht Centraal'',
     TimingPointTown = Some ''Utrecht'', StopAreaCode = Some ''ut'' \<rparr>"

text \<open>A stop whose name has a letter beyond ASCII: Caf, e acute (\<open>0xE9\<close>), Centraal.\<close>

definition stop_cafe :: "char stop_area" where
  "stop_cafe = \<lparr> TimingPointName = Some (''Caf'' @ [CHR 0xE9] @ '' Centraal''),
     TimingPointTown = Some ''Amsterdam'', StopAreaCode = Some ''cafe'' \<rparr>"

definition directory_small :: "char stop_area list" where
  "directory_small = [stop_utrecht, stop_centraal, stop_amstelveen]"

definition directory_crowded :: "char stop_area list" where
  "directory_crowded = replicate 15 stop_amstelveen @ [stop_centraal]"

text \<open>
  A departure planned for 13:31 and expected at 14:36 local time (65 minutes late), and
  two polls 30 seconds apart, 62 minutes after the planned time.
\<close>

definition raw_late :: raw_departure where
  "raw_late = raw_a\<lparr> ExpectedDepartureTime := Some ''2025-06-14T14:36:00'' \<rparr>"

definition dep_late :: departure where
  "dep_late = \<lparr> line = ''5'', destination = ''Utrecht Centraal'', status = Planned,
     planned_time = ''11:31'', expected_time = ''12:36'', delay_minutes = Some 65,
     transport_type = Tram, operator = ''GVB'', timestamp = 1749904560000,
     uid = ''asd_5_Utrecht Centraal_1749900660000'' \<rparr>"

definition json_late :: departures_json where
  "json_late = JsonObject (\<lambda>k. if k = ''asd'' then Some [\<lparr> Passes = Some [raw_late] \<rparr>] else None)"

definition env_late1 :: env where
  "env_late1 = \<lparr> env_now = 1749904380000, env_fetch = (\<lambda>_. Inr json_late), env_parse = no_other,
     env_strings = latin1 \<rparr>"

definition env_late2 :: env where
  "env_late2 = \<lparr> env_now = 1749904410000, env_fetch = (\<lambda>_. Inr json_late), env_parse = no_other,
     env_strings = latin1 \<rparr>"

definition args_once :: trigger_args where
  "args_once = \<lparr> station_id = Some ''asd'', destination_name = Some ''utrecht'', minutes = Some 5,
     min_delay = Some 5, trigger_mode = Some ''once'' \<rparr>"

definition args_always :: trigger_args where
  "args_always = args_once\<lparr> trigger_mode := Some ''always'' \<rparr>"

text \<open>
  The app after the departure-soon check of the first of these polls for an instance in
  always mode, and after the departure-delayed check that follows it.
\<close>

definition app_late1 :: "char app" where
  "app_late1 = checkDepartureSoonTrigger env_late1 args_always (onInit homey0)"

definition app_late2 :: "char app" where
  "app_late2 = checkDepartureDelayedTrigger env_late1 args_always app_late1"

text \<open>An instance configured with the threshold 0, and a poll 3 minutes before \<open>dep_a\<close> leaves.\<close>

definition args_zero :: trigger_args where
  "args_zero = \<lparr> station_id = Some ''asd'', destination_name = None, minutes = Some 0,
     min_delay = Some 0, trigger_mode = Some ''always'' \<rparr>"

definition json_a :: departures_json where
  "json_a = JsonObject (\<lambda>k. if k = ''asd'' then Some [\<lparr> Passes = Some [raw_a] \<rparr>] else None)"

definition env_a :: env where
  "env_a = \<lparr> env_now = 1749900720000, env_fetch = (\<lambda>_. Inr json_a), env_parse = no_other,
     env_strings = latin1 \<rparr>"

text \<open>A departure whose planned time cannot be parsed, due in 5 minutes.\<close>

definition raw_unplanned :: raw_departure where
  "raw_unplanned = raw_b\<lparr> TargetDepartureTime := Some ''unknown'',
     ExpectedDepartureTime := Some ''2025-06-14T13:35:00'' \<rparr>"

definition dep_unplanned :: departure where
  "dep_unplanned = \<lparr> line = ''12'', destination = ''Amstelveen'', status = Planned,
     planned_time = ''Invalid Date'', expected_time = ''11:35'', delay_minutes = None,
     transport_type = Bus, operator = ''GVB'', timestamp = 1749900900000,
     uid = ''asd_12_Amstelveen_0'' \<rparr>"

definition json_unplanned :: departures_json where
  "json_unplanned =
     JsonObject (\<lambda>k. if k = ''asd'' then Some [\<lparr> Passes = Some [raw_unplanned] \<rparr>] else None)"

definition env_unplanned :: env where
  "env_unplanned = \<lparr> env_now = 1749900600000, env_fetch = (\<lambda>_. Inr json_unplanned),
     env_parse = no_other, env_strings = latin1 \<rparr>"

definition args_plain :: trigger_args where
  "args_plain = \<lparr> station_id = Some ''asd'', destination_name = None, minutes = Some 5,
     min_delay = Some 5, trigger_mode = Some ''once'' \<rparr>"

text \<open>An app that has fired both triggers for \<open>dep_late\<close>.\<close>

definition app_keys :: "char app" where
  "app_keys = (onInit homey0)\<lparr> triggered_soon := [''soon_'' @ uid dep_late],
     triggered_delayed := [''delayed_'' @ uid dep_late] \<rparr>"

section \<open>Properties\<close>

declare show_nat.simps [simp del]

subsection \<open>Rounding to minutes\<close>

lemma Math_round_quot_div:
  "0 < b \<Longrightarrow> Math_round_quot a b = (2 * a + b) div (2 * b)"
proof -
  assume b: "0 < b"
  have "real_of_int a / real_of_int b + 1 / 2 = real_of_int (2 * a + b) / real_of_int (2 * b)"
    using b by (simp add: field_simps)
  then show ?thesis
    unfolding Math_round_quot_def Math_round_def by (simp only: floor_divide_of_int_eq)
qed

lemma Math_round_quot_minutes: "Math_round_quot x 60000 = (x + 30000) div 60000"
proof -
  have "Math_round_quot x 60000 = (2 * x + 60000) div (2 * 60000)"
    using Math_round_quot_div [of 60000 x] by simp
  also have "2 * x + 60000 = 2 * (x + 30000)" by simp
  also have "(2 * (x + 30000)) div (2 * 60000) = (x + 30000) div 60000"
    by (rule div_mult_mult1) simp
  finally show ?thesis .
qed

lemma getMinutesUntil_div:
  "getMinutesUntil now dep = max 0 ((timestamp dep - now + 30000) div 60000)"
  by (simp only: getMinutesUntil_def Let_def Math_round_quot_minutes)

text \<open>
  C9. \<open>getMinutesUntil\<close> is \<open>max(0, round((timestamp - now) / 60000))\<close>, with
  \<open>round\<close> the rounding to the nearest integer (ties upwards); it is never negative,
  and it is 0 for a departure whose timestamp is not after now.
\<close>

theorem C9_getMinutesUntil:
  "getMinutesUntil now dep = max 0 (round (real_of_int (timestamp dep - now) / 60000))
   \<and> 0 \<le> getMinutesUntil now dep
   \<and> (timestamp dep \<le> now \<longrightarrow> getMinutesUntil now dep = 0)"
proof (intro conjI impI)
  show "getMinutesUntil now dep = max 0 (round (real_of_int (timestamp dep - now) / 60000))"
    by (simp add: getMinutesUntil_def Math_round_quot_def Math_round_def round_def)
  show "0 \<le> getMinutesUntil now dep"
    by (simp add: getMinutesUntil_def)
  assume "timestamp dep \<le> now"
  then have "(timestamp dep - now + 30000) div 60000 \<le> 30000 div 60000"
    by (intro zdiv_mono1) simp_all
  then have "(timestamp dep - now + 30000) div 60000 \<le> 0" by simp
  then show "getMinutesUntil now dep = 0"
    by (simp add: getMinutesUntil_div)
qed

theorem C9_getMinutesUntil_witness:
  "timestamp dep_example \<le> 500000 \<and> getMinutesUntil 500000 dep_example = 0
   \<and> getMinutesUntil (- 149000) dep_example = 3"
  using C9_getMinutesUntil [of 500000 dep_example]
  by (simp add: dep_example_def getMinutesUntil_div)

subsection \<open>Evaluating the model on concrete inputs\<close>

lemmas char_eval = is_digit_def digit_char_def digit_val_def decimal_digits_def lower_char_def
  upper_char_def upper_letters_def lower_letters_def latin1_def

lemmas departure_eval = departure_of_def or_str_def or_else_def truthy_def template_def
  num_or_def opt_time_def getTime_def Math_round_quot_minutes mapStatus_def mapTransportType_def
  show_int_def show_nat.simps formatTime_def pad2_def HourFromTime_def MinFromTime_def char_eval

lemma env_strings_eval [simp]:
  "env_strings env_down = latin1" "env_strings env_late1 = latin1" "env_strings env_late2 = latin1"
  "env_strings env_a = latin1" "env_strings env_unplanned = latin1"
  by (simp_all add: env_down_def env_late1_def env_late2_def env_a_def env_unplanned_def)

lemma parse_1331: "parseDateTime no_other (Some ''2025-06-14T13:31:00'') = Some (Some 1749900660000)"
  by code_simp

lemma parse_1335: "parseDateTime no_other (Some ''2025-06-14T13:35:00'') = Some (Some 1749900900000)"
  by code_simp

lemma parse_1320: "parseDateTime no_other (Some ''2025-06-14T13:20:00'') = Some (Some 1749900000000)"
  by code_simp

lemma parse_None: "parseDateTime other None = None"
  by (simp add: parseDateTime_def)

lemma departure_of_raw_a: "departure_of latin1 no_other ''asd'' raw_a = Some dep_a"
  by (simp add: raw_a_def dep_a_def parse_1331 parse_1335 departure_eval)

lemma departure_of_raw_b: "departure_of latin1 no_other ''asd'' raw_b = Some dep_b"
  by (simp add: raw_b_def dep_b_def parse_1320 parse_None departure_eval)

lemma departure_of_raw_passed: "departure_of latin1 no_other ''asd'' raw_passed = None"
  by (simp add: raw_passed_def raw_a_def parse_1331 parse_1335 departure_eval)

lemma departure_of_raw_untimed: "departure_of latin1 no_other ''asd'' raw_untimed = None"
  by (simp add: raw_untimed_def raw_b_def parse_None departure_eval)

lemma timestamp_dep_a: "timestamp dep_a = 1749900900000"
  by (simp add: dep_a_def)

lemma timestamp_dep_b: "timestamp dep_b = 1749900000000"
  by (simp add: dep_b_def)

lemma collect_json_ab:
  "collect_departures latin1 no_other ''asd''
     [\<lparr> Passes = Some [raw_a, raw_passed] \<rparr>, \<lparr> Passes = None \<rparr>, \<lparr> Passes = Some [raw_untimed, raw_b] \<rparr>]
   = [dep_a, dep_b]"
  by (simp add: collect_departures_def List.map_filter_simps departure_of_raw_a departure_of_raw_b
      departure_of_raw_passed departure_of_raw_untimed)

subsection \<open>\<open>getDepartures\<close>\<close>

lemma getDepartures_fetch:
  "fetch_attempted ov now code \<Longrightarrow>
   getDepartures sp other fetched now code limit_arg ov =
     (case getDepartures_try sp other fetched now code (case limit_arg of None \<Rightarrow> 10 | Some l \<Rightarrow> l) ov of
        Inr r \<Rightarrow> r | Inl e \<Rightarrow> ([], log_error e ov))"
  by (auto simp: getDepartures_def fetch_attempted_def Let_def split: option.splits)

lemma getDepartures_cached:
  "code \<noteq> [] \<Longrightarrow> departuresCache ov code = Some c \<Longrightarrow> now - time c < DEPARTURES_CACHE_TTL \<Longrightarrow>
   getDepartures sp other fetched now code limit_arg ov =
     (take (case limit_arg of None \<Rightarrow> 10 | Some l \<Rightarrow> l) (data c), ov)"
  by (simp add: getDepartures_def)

lemma sorted_take_map: "sorted (map f xs) \<Longrightarrow> sorted (map f (take n xs))"
  by (simp add: sorted_wrt_take flip: take_map)

text \<open>
  C5. When the fetch succeeds, the list \<open>getDepartures\<close> returns is sorted by timestamp
  and has at most \<open>limit\<close> elements, \<open>limit\<close> being 10 when the argument is missing.
\<close>

theorem C5_getDepartures_sorted_limited:
  assumes "fetch_attempted ov now code"
  shows "sorted (map timestamp (fst (getDepartures sp other (Inr (JsonObject obj)) now code limit_arg ov)))
         \<and> length (fst (getDepartures sp other (Inr (JsonObject obj)) now code limit_arg ov))
             \<le> (case limit_arg of None \<Rightarrow> 10 | Some l \<Rightarrow> l)"
  using assms
  by (simp add: getDepartures_fetch getDepartures_try_def Let_def sorted_take_map)

lemma fetch_attempted_new: "code \<noteq> [] \<Longrightarrow> fetch_attempted (new_OVApi h) now code"
  by (simp add: fetch_attempted_def new_OVApi_def)

lemma getDepartures_json_ab:
  "fst (getDepartures latin1 no_other (Inr json_ab) 1749900000000 ''asd'' limit_arg (new_OVApi homey0))
   = take (case limit_arg of None \<Rightarrow> 10 | Some l \<Rightarrow> l) [dep_b, dep_a]"
  by (simp add: getDepartures_fetch fetch_attempted_new getDepartures_try_def json_ab_def
      collect_json_ab Let_def timestamp_dep_a timestamp_dep_b)

theorem C5_getDepartures_sorted_limited_witness:
  "fetch_attempted (new_OVApi homey0) 1749900000000 ''asd''
   \<and> fst (getDepartures latin1 no_other (Inr json_ab) 1749900000000 ''asd'' None (new_OVApi homey0)) = [dep_b, dep_a]
   \<and> sorted (map timestamp [dep_b, dep_a])
   \<and> fst (getDepartures latin1 no_other (Inr json_ab) 1749900000000 ''asd'' (Some 1) (new_OVApi homey0)) = [dep_b]"
  using C5_getDepartures_sorted_limited [of "new_OVApi homey0" 1749900000000 "''asd''" latin1 no_other
      "\<lambda>k. if k = ''asd''
       then Some [\<lparr> Passes = Some [raw_a, raw_passed] \<rparr>, \<lparr> Passes = None \<rparr>,
                  \<lparr> Passes = Some [raw_untimed, raw_b] \<rparr>]
       else None" None]
  by (simp add: fetch_attempted_new getDepartures_json_ab json_ab_def [symmetric]
      timestamp_dep_a timestamp_dep_b)

lemma departure_of_None_iff:
  "departure_of sp other code raw = None \<longleftrightarrow>
     (mapStatus sp (or_str (TripStopStatus raw) []) = Passed
      \<or> num_or (opt_time (parseDateTime other (ExpectedDepartureTime raw)))
           (num_or (opt_time (parseDateTime other (TargetDepartureTime raw))) 0) = 0)"
  by (simp add: departure_of_def Let_def)

lemma departure_of_live:
  "departure_of sp other code raw = Some d \<Longrightarrow> status d \<noteq> Passed \<and> timestamp d \<noteq> 0"
  by (auto simp: departure_of_def Let_def split: if_splits)

lemma collect_departures_live:
  "d \<in> set (collect_departures sp other code stops) \<Longrightarrow> status d \<noteq> Passed \<and> timestamp d \<noteq> 0"
  by (auto simp: collect_departures_def List.map_filter_def dest: departure_of_live)

lemma cache_live_new: "cache_live (new_OVApi h)"
  by (simp add: cache_live_def new_OVApi_def)

lemma cache_live_log_error: "cache_live (log_error e ov) = cache_live ov"
  by (simp add: cache_live_def log_error_def)

lemma getDepartures_try_live:
  assumes "cache_live ov"
    and "getDepartures_try sp other fetched now code lmt ov = Inr (r, ov')"
  shows "(\<forall>d \<in> set r. status d \<noteq> Passed \<and> timestamp d \<noteq> 0) \<and> cache_live ov'"
proof -
  from assms(2) obtain obj where f: "fetched = Inr (JsonObject obj)"
    by (auto simp: getDepartures_try_def split: sum.splits departures_json.splits)
  define ds where "ds = sort_key timestamp (collect_departures sp other code
      (case obj code of None \<Rightarrow> [] | Some stops \<Rightarrow> stops))"
  have live: "\<forall>d \<in> set ds. status d \<noteq> Passed \<and> timestamp d \<noteq> 0"
    unfolding ds_def using collect_departures_live by auto
  from assms(2) f have r: "r = take lmt ds"
    and ov': "ov' = ov\<lparr> departuresCache := (departuresCache ov)(code \<mapsto> \<lparr> time = now, data = ds \<rparr>) \<rparr>"
    by (simp_all add: getDepartures_try_def Let_def ds_def)
  have "\<forall>d \<in> set r. status d \<noteq> Passed \<and> timestamp d \<noteq> 0"
    using live r by (auto dest: in_set_takeD)
  moreover have "cache_live ov'"
    using assms(1) live unfolding cache_live_def ov' by auto
  ultimately show ?thesis by simp
qed

text \<open>
  C6. No departure in a list returned by \<open>getDepartures\<close> has status \<open>passed\<close> or
  timestamp 0, for a client whose cache holds none either (as the cache of a new client
  does, and as \<open>getDepartures\<close> leaves it); a raw record is left out exactly when its
  mapped status is \<open>passed\<close> or its timestamp comes out as 0.
\<close>

theorem C6_getDepartures_live:
  assumes "cache_live ov"
  shows "(\<forall>d \<in> set (fst (getDepartures sp other fetched now code limit_arg ov)).
            status d \<noteq> Passed \<and> timestamp d \<noteq> 0)
         \<and> cache_live (snd (getDepartures sp other fetched now code limit_arg ov))
         \<and> (departure_of sp other code raw = None \<longleftrightarrow>
              (mapStatus sp (or_str (TripStopStatus raw) []) = Passed
               \<or> num_or (opt_time (parseDateTime other (ExpectedDepartureTime raw)))
                    (num_or (opt_time (parseDateTime other (TargetDepartureTime raw))) 0) = 0))"
proof -
  let ?lmt = "case limit_arg of None \<Rightarrow> 10 | Some l \<Rightarrow> l"
  let ?g = "getDepartures sp other fetched now code limit_arg ov"
  have main: "(\<forall>d \<in> set (fst ?g). status d \<noteq> Passed \<and> timestamp d \<noteq> 0) \<and> cache_live (snd ?g)"
  proof (cases "fetch_attempted ov now code")
    case True
    show ?thesis
    proof (cases "getDepartures_try sp other fetched now code ?lmt ov")
      case (Inl e)
      with True assms show ?thesis
        by (simp add: getDepartures_fetch cache_live_log_error)
    next
      case (Inr p)
      obtain r ov' where p: "p = (r, ov')" by (cases p)
      from getDepartures_try_live [OF assms Inr [unfolded p]] True Inr p
      show ?thesis by (simp add: getDepartures_fetch)
    qed
  next
    case False
    show ?thesis
    proof (cases "code = []")
      case True
      with assms show ?thesis by (simp add: getDepartures_def)
    next
      case nonempty: False
      with False obtain c where c: "departuresCache ov code = Some c"
        and fresh: "now - time c < DEPARTURES_CACHE_TTL"
        by (auto simp: fetch_attempted_def split: option.splits)
      from assms c have "\<forall>d \<in> set (data c). status d \<noteq> Passed \<and> timestamp d \<noteq> 0"
        by (auto simp: cache_live_def)
      with assms show ?thesis
        by (auto simp: getDepartures_cached [OF nonempty c fresh] dest: in_set_takeD)
    qed
  qed
  with departure_of_None_iff show ?thesis by blast
qed

theorem C6_getDepartures_live_witness:
  "cache_live (new_OVApi homey0)
   \<and> fst (getDepartures latin1 no_other (Inr json_ab) 1749900000000 ''asd'' None (new_OVApi homey0)) = [dep_b, dep_a]
   \<and> status dep_a = Planned \<and> status dep_b = Planned
   \<and> timestamp dep_a = 1749900900000 \<and> timestamp dep_b = 1749900000000
   \<and> departure_of latin1 no_other ''asd'' raw_passed = None
   \<and> departure_of latin1 no_other ''asd'' raw_untimed = None"
  using C6_getDepartures_live [of "new_OVApi homey0" latin1 no_other "Inr json_ab" 1749900000000 "''asd''" None raw_passed]
  by (simp add: cache_live_new getDepartures_json_ab departure_of_raw_passed departure_of_raw_untimed
      timestamp_dep_a timestamp_dep_b) (simp add: dep_a_def dep_b_def)

text \<open>
  C7. When \<open>_fetch\<close> rejects (timeout, network error or invalid JSON), the \<open>try\<close> block
  of \<open>getDepartures\<close> throws, the \<open>catch\<close> logs the error and the call returns the empty
  list; a trigger check that called it fires nothing and changes nothing but the log.
\<close>

theorem C7_getDepartures_fail_soft:
  assumes "fetch_attempted ov now code"
  shows "getDepartures_try sp other (Inl err) now code lmt ov = Inl (Rejected err)
         \<and> getDepartures sp other (Inl err) now code limit_arg ov = ([], log_error (Rejected err) ov)
         \<and> (station_id args = Some code \<and> api a = ov \<and> env_now e = now \<and> env_fetch e code = Inl err
              \<longrightarrow> checkDepartureSoonTrigger e args a = a\<lparr> api := log_error (Rejected err) ov \<rparr>
                \<and> checkDepartureDelayedTrigger e args a = a\<lparr> api := log_error (Rejected err) ov \<rparr>)"
proof -
  have t: "\<And>l. getDepartures_try sp other (Inl err) now code l ov = Inl (Rejected err)"
    by (simp add: getDepartures_try_def)
  have g: "\<And>q p. getDepartures q p (Inl err) now code None ov = ([], log_error (Rejected err) ov)"
    using assms by (simp add: getDepartures_fetch getDepartures_try_def)
  have g': "getDepartures sp other (Inl err) now code limit_arg ov = ([], log_error (Rejected err) ov)"
    using assms by (simp add: getDepartures_fetch getDepartures_try_def)
  from assms have ne: "code \<noteq> []" by (simp add: fetch_attempted_def)
  show ?thesis
    using t g g' ne
    by (auto simp: checkDepartureSoonTrigger_def checkDepartureDelayedTrigger_def)
qed

theorem C7_getDepartures_fail_soft_witness:
  "fetch_attempted (new_OVApi homey0) 1749900000000 ''asd''
   \<and> getDepartures latin1 no_other (Inl RequestTimeout) 1749900000000 ''asd'' None (new_OVApi homey0)
       = ([], log_error (Rejected RequestTimeout) (new_OVApi homey0))
   \<and> fired (checkDepartureSoonTrigger env_down args_asd (onInit homey0)) = []
   \<and> fired (checkDepartureDelayedTrigger env_down args_asd (onInit homey0)) = []"
  using C7_getDepartures_fail_soft [of "new_OVApi homey0" 1749900000000 "''asd''" latin1 no_other
      RequestTimeout 10
      None args_asd "onInit homey0" env_down]
  by (simp add: fetch_attempted_new args_asd_def env_down_def onInit_def)

subsection \<open>\<open>searchLocations\<close>\<close>

lemma includes_str_sublist: "includes_str s q \<longleftrightarrow> sublist q s"
  by (induction s) (auto simp: sublist_Cons_right)

lemma stop_matches_sublist:
  "stop_matches sp ql stop \<longleftrightarrow>
     sublist ql (toLowerCase sp (or_str (TimingPointName stop) []))
     \<or> sublist ql (toLowerCase sp (or_str (TimingPointTown stop) []))
     \<or> sublist ql (toLowerCase sp (or_str (StopAreaCode stop) []))"
  by (simp add: stop_matches_def includes_str_sublist)

lemma searchLocations_short:
  "query = None \<or> (\<exists>q. query = Some q \<and> length q < 2) \<Longrightarrow>
   fst (searchLocations sp fetched now query ov) = []"
  by (auto simp: searchLocations_def)

lemma searchLocations_long:
  "2 \<le> length q \<Longrightarrow>
   fst (searchLocations sp fetched now (Some q) ov)
     = map location_of (take 15 (filter (stop_matches sp (toLowerCase sp q))
         (fst (getAllStopAreas fetched now ov))))"
  by (auto simp: searchLocations_def split: prod.splits)

lemma nth_in_take_filter:
  assumes "i < length xs" and "P (xs ! i)" and "length (filter P (take i xs)) < n"
  shows "xs ! i \<in> set (take n (filter P xs))"
proof -
  have "xs = take i xs @ xs ! i # drop (Suc i) xs"
    using assms(1) by (simp add: id_take_nth_drop)
  then have "filter P xs = filter P (take i xs) @ xs ! i # filter P (drop (Suc i) xs)"
    using assms(2) by (metis filter.simps(2) filter_append)
  then have "take n (filter P xs)
      = filter P (take i xs) @ take (n - length (filter P (take i xs))) (xs ! i # filter P (drop (Suc i) xs))"
    using assms(3) by simp
  moreover obtain m where "n - length (filter P (take i xs)) = Suc m"
    using assms(3) by (cases "n - length (filter P (take i xs))") auto
  ultimately show ?thesis by simp
qed

text \<open>
  C8 (amended). A missing query and a query of fewer than 2 code units give the empty
  list. Any query gives at most 15 results, each made from a stop of the directory whose
  name, town or code, put in lower case by the host's \<open>toLowerCase\<close>, contains the query
  put in lower case. A stop of the directory that matches is among the results when
  fewer than 15 matching stops stand before it in the directory. This holds for strings
  over any type of code units and for any \<open>toLowerCase\<close>.
\<close>

theorem C8_searchLocations:
  "(query = None \<or> (\<exists>q. query = Some q \<and> length q < 2)
      \<longrightarrow> fst (searchLocations sp fetched now query ov) = [])
   \<and> length (fst (searchLocations sp fetched now query ov)) \<le> 15
   \<and> (\<forall>r \<in> set (fst (searchLocations sp fetched now (Some q) ov)).
        \<exists>stop \<in> set (fst (getAllStopAreas fetched now ov)).
          r = location_of stop
          \<and> (sublist (toLowerCase sp q) (toLowerCase sp (or_str (TimingPointName stop) []))
             \<or> sublist (toLowerCase sp q) (toLowerCase sp (or_str (TimingPointTown stop) []))
             \<or> sublist (toLowerCase sp q) (toLowerCase sp (or_str (StopAreaCode stop) []))))
   \<and> (2 \<le> length q \<and> i < length (fst (getAllStopAreas fetched now ov))
       \<and> stop_matches sp (toLowerCase sp q) (fst (getAllStopAreas fetched now ov) ! i)
       \<and> length (filter (stop_matches sp (toLowerCase sp q))
                   (take i (fst (getAllStopAreas fetched now ov)))) < 15
      \<longrightarrow> location_of (fst (getAllStopAreas fetched now ov) ! i)
            \<in> set (fst (searchLocations sp fetched now (Some q) ov)))"
proof (intro conjI impI ballI)
  assume "query = None \<or> (\<exists>q. query = Some q \<and> length q < 2)"
  then show "fst (searchLocations sp fetched now query ov) = []"
    by (rule searchLocations_short)
next
  show "length (fst (searchLocations sp fetched now query ov)) \<le> 15"
  proof (cases query)
    case None
    then show ?thesis by (simp add: searchLocations_short)
  next
    case (Some q')
    then show ?thesis
      by (cases "2 \<le> length q'") (simp_all add: searchLocations_long searchLocations_short)
  qed
next
  fix r assume r: "r \<in> set (fst (searchLocations sp fetched now (Some q) ov))"
  then have long: "2 \<le> length q"
    by (cases "2 \<le> length q") (simp_all add: searchLocations_short)
  from r obtain stop where "stop \<in> set (fst (getAllStopAreas fetched now ov))"
    and "stop_matches sp (toLowerCase sp q) stop" and "r = location_of stop"
    unfolding searchLocations_long [OF long] by (auto dest!: in_set_takeD)
  then show "\<exists>stop \<in> set (fst (getAllStopAreas fetched now ov)).
          r = location_of stop
          \<and> (sublist (toLowerCase sp q) (toLowerCase sp (or_str (TimingPointName stop) []))
             \<or> sublist (toLowerCase sp q) (toLowerCase sp (or_str (TimingPointTown stop) []))
             \<or> sublist (toLowerCase sp q) (toLowerCase sp (or_str (StopAreaCode stop) [])))"
    by (auto simp: stop_matches_sublist)
next
  assume a: "2 \<le> length q \<and> i < length (fst (getAllStopAreas fetched now ov))
       \<and> stop_matches sp (toLowerCase sp q) (fst (getAllStopAreas fetched now ov) ! i)
       \<and> length (filter (stop_matches sp (toLowerCase sp q))
                   (take i (fst (getAllStopAreas fetched now ov)))) < 15"
  then have "fst (getAllStopAreas fetched now ov) ! i
      \<in> set (take 15 (filter (stop_matches sp (toLowerCase sp q)) (fst (getAllStopAreas fetched now ov))))"
    by (intro nth_in_take_filter) simp_all
  with a show "location_of (fst (getAllStopAreas fetched now ov) ! i)
            \<in> set (fst (searchLocations sp fetched now (Some q) ov))"
    by (simp add: searchLocations_long)
qed

lemma getAllStopAreas_new:
  "fst (getAllStopAreas (Inr (Some dir)) now (new_OVApi homey0)) = dir"
  by (simp add: getAllStopAreas_def new_OVApi_def homey0_def)

lemmas stop_eval = stop_matches_def or_str_def latin1_def lower_char_def upper_letters_def
  lower_letters_def

lemma matches_amst:
  "stop_matches latin1 ''amst'' stop_centraal" "stop_matches latin1 ''amst'' stop_amstelveen"
  "\<not> stop_matches latin1 ''amst'' stop_utrecht"
  by (simp_all add: stop_centraal_def stop_amstelveen_def stop_utrecht_def stop_eval)

lemma toLowerCase_amst: "toLowerCase latin1 ''Amst'' = ''amst''"
  by (simp add: stop_eval)

text \<open>
  Letters beyond ASCII are folded as well: searching CAF, capital E acute (\<open>0xC9\<close>),
  finds the stop whose name is written with the small e acute (\<open>0xE9\<close>).
\<close>

lemma searchLocations_accented:
  "length (''CAF'' @ [CHR 0xC9]) = 4
   \<and> toLowerCase latin1 (''CAF'' @ [CHR 0xC9]) = ''caf'' @ [CHR 0xE9]
   \<and> fst (searchLocations latin1 (Inr (Some [stop_utrecht, stop_cafe])) 1749900000000
          (Some (''CAF'' @ [CHR 0xC9])) (new_OVApi homey0))
       = [location_of stop_cafe]"
proof -
  have l: "toLowerCase latin1 [CHR ''C'', CHR ''A'', CHR ''F'', CHR 0xC9] = ''caf'' @ [CHR 0xE9]"
    by (simp add: stop_eval)
  have m: "stop_matches latin1 (''caf'' @ [CHR 0xE9]) stop_cafe"
    "\<not> stop_matches latin1 (''caf'' @ [CHR 0xE9]) stop_utrecht"
    by (simp_all add: stop_cafe_def stop_utrecht_def stop_eval)
  show ?thesis
    using m by (simp add: l searchLocations_long getAllStopAreas_new)
qed

text \<open>
  The theorem at a query of one code unit, at the query \<open>Amst\<close> in a directory of three
  stops of which two match, and at the query with the capital E acute.
\<close>

theorem C8_searchLocations_witness:
  "length ''A'' < 2 \<and> fst (searchLocations latin1 (Inr (Some directory_small)) 1749900000000 (Some ''A'') (new_OVApi homey0)) = []
   \<and> 2 \<le> length ''Amst''
   \<and> fst (getAllStopAreas (Inr (Some directory_small)) 1749900000000 (new_OVApi homey0)) ! 1 = stop_centraal
   \<and> stop_matches latin1 (toLowerCase latin1 ''Amst'') stop_centraal
   \<and> filter (stop_matches latin1 (toLowerCase latin1 ''Amst''))
        (take 1 (fst (getAllStopAreas (Inr (Some directory_small)) 1749900000000 (new_OVApi homey0)))) = []
   \<and> location_of stop_centraal
        \<in> set (fst (searchLocations latin1 (Inr (Some directory_small)) 1749900000000 (Some ''Amst'') (new_OVApi homey0)))
   \<and> fst (searchLocations latin1 (Inr (Some directory_small)) 1749900000000 (Some ''Amst'') (new_OVApi homey0))
       = [location_of stop_centraal, location_of stop_amstelveen]
   \<and> fst (searchLocations latin1 (Inr (Some [stop_utrecht, stop_cafe])) 1749900000000
          (Some (''CAF'' @ [CHR 0xC9])) (new_OVApi homey0))
       = [location_of stop_cafe]"
proof -
  have "length ''A'' < 2 \<and> fst (searchLocations latin1 (Inr (Some directory_small)) 1749900000000 (Some ''A'') (new_OVApi homey0)) = []
   \<and> 2 \<le> length ''Amst''
   \<and> fst (getAllStopAreas (Inr (Some directory_small)) 1749900000000 (new_OVApi homey0)) ! 1 = stop_centraal
   \<and> stop_matches latin1 (toLowerCase latin1 ''Amst'') stop_centraal
   \<and> filter (stop_matches latin1 (toLowerCase latin1 ''Amst''))
        (take 1 (fst (getAllStopAreas (Inr (Some directory_small)) 1749900000000 (new_OVApi homey0)))) = []
   \<and> location_of stop_centraal
        \<in> set (fst (searchLocations latin1 (Inr (Some directory_small)) 1749900000000 (Some ''Amst'') (new_OVApi homey0)))
   \<and> fst (searchLocations latin1 (Inr (Some directory_small)) 1749900000000 (Some ''Amst'') (new_OVApi homey0))
       = [location_of stop_centraal, location_of stop_amstelveen]"
    using C8_searchLocations [where query = "Some ''A''" and sp = latin1
        and fetched = "Inr (Some directory_small)" and now = 1749900000000
        and ov = "new_OVApi homey0" and q = "''Amst''" and i = 1]
    by (simp add: getAllStopAreas_new searchLocations_long searchLocations_short toLowerCase_amst
        directory_small_def matches_amst)
  with searchLocations_accented show ?thesis
    by blast
qed

text \<open>
  C8 as stated fails: with 15 matching stops before it in the directory, the stop named
  Amsterdam Centraal is not among the results of searching \<open>amst\<close>.
\<close>

theorem C8_searchLocations_counterexample:
  "stop_centraal \<in> set (fst (getAllStopAreas (Inr (Some directory_crowded)) 1749900000000 (new_OVApi homey0)))
   \<and> TimingPointName stop_centraal = Some ''Amsterdam Centraal''
   \<and> location_of stop_centraal
        \<notin> set (fst (searchLocations latin1 (Inr (Some directory_crowded)) 1749900000000 (Some ''amst'') (new_OVApi homey0)))"
proof -
  have lower: "toLowerCase latin1 ''amst'' = ''amst''" by (simp add: stop_eval)
  have "filter (stop_matches latin1 ''amst'') directory_crowded = directory_crowded"
    by (auto simp: directory_crowded_def matches_amst)
  then have "fst (searchLocations latin1 (Inr (Some directory_crowded)) 1749900000000 (Some ''amst'') (new_OVApi homey0))
      = replicate 15 (location_of stop_amstelveen)"
    by (simp add: searchLocations_long getAllStopAreas_new lower) (simp add: directory_crowded_def)
  moreover have "location_of stop_centraal \<noteq> location_of stop_amstelveen"
    by (simp add: location_of_def stop_centraal_def stop_amstelveen_def or_str_def)
  ultimately show ?thesis
    by (simp add: getAllStopAreas_new) (simp add: directory_crowded_def stop_centraal_def)
qed

subsection \<open>The two trigger loops\<close>

text \<open>
  Each loop looks for the first departure that qualifies and is not suppressed by the
  once mode, fires for it and records its key.
\<close>

lemma soon_loop_find:
  "soon_loop sp now args sid dl th deps a =
     (case find (\<lambda>dep. soon_qualifies sp now dl th dep
                   \<and> \<not> (trigger_mode args = Some ''once''
                         \<and> ''soon_'' @ uid dep \<in> set (triggered_soon a))) deps of
        None \<Rightarrow> a
      | Some dep \<Rightarrow>
          a\<lparr> fired := fired a @
                 [\<lparr> trigger_card = Soon, tok_line = line dep, tok_destination = destination dep,
                    tok_minutes_until = Some (getMinutesUntil now dep), tok_delay_minutes = None,
                    tok_planned_time = planned_time dep, tok_expected_time = expected_time dep,
                    state_stationId = sid, state_destination = destination dep,
                    fired_for = dep \<rparr>],
               triggered_soon := set_add (''soon_'' @ uid dep) (triggered_soon a) \<rparr>)"
  by (induction deps) (auto simp: soon_qualifies_def Let_def)

lemma delayed_loop_find:
  "delayed_loop sp args sid dl md deps a =
     (case find (\<lambda>dep. delayed_qualifies sp dl md dep
                   \<and> \<not> (trigger_mode args = Some ''once''
                         \<and> ''delayed_'' @ uid dep \<in> set (triggered_delayed a))) deps of
        None \<Rightarrow> a
      | Some dep \<Rightarrow>
          a\<lparr> fired := fired a @
                 [\<lparr> trigger_card = Delayed, tok_line = line dep, tok_destination = destination dep,
                    tok_minutes_until = None, tok_delay_minutes = Some (delay_minutes dep),
                    tok_planned_time = planned_time dep, tok_expected_time = expected_time dep,
                    state_stationId = sid, state_destination = destination dep,
                    fired_for = dep \<rparr>],
               triggered_delayed := set_add (''delayed_'' @ uid dep) (triggered_delayed a) \<rparr>)"
  by (induction deps) (auto simp: delayed_qualifies_def Let_def)

lemma set_add_mem: "k \<in> set (set_add k ks)"
  by (simp add: set_add_def)

lemma set_add_set: "set (set_add k ks) = insert k (set ks)"
  by (auto simp: set_add_def)

text \<open>What a check of one instance does, in terms of the list it polled.\<close>

lemma checkDepartureSoonTrigger_skip:
  "station_id args = None \<or> station_id args = Some [] \<Longrightarrow> checkDepartureSoonTrigger e args a = a"
  by (auto simp: checkDepartureSoonTrigger_def)

lemma checkDepartureDelayedTrigger_skip:
  "station_id args = None \<or> station_id args = Some [] \<Longrightarrow> checkDepartureDelayedTrigger e args a = a"
  by (auto simp: checkDepartureDelayedTrigger_def)

lemma checkDepartureSoonTrigger_loop:
  "station_id args = Some sid \<Longrightarrow> sid \<noteq> [] \<Longrightarrow>
   checkDepartureSoonTrigger e args a =
     soon_loop (env_strings e) (env_now e) args sid
       (toLowerCase (env_strings e) (or_str (destination_name args) []))
       (soon_threshold args) (polled_departures e sid a)
       (a\<lparr> api := snd (getDepartures (env_strings e) (env_parse e) (env_fetch e sid) (env_now e) sid None (api a)) \<rparr>)"
  by (simp add: checkDepartureSoonTrigger_def polled_departures_def split: prod.splits)

lemma checkDepartureDelayedTrigger_loop:
  "station_id args = Some sid \<Longrightarrow> sid \<noteq> [] \<Longrightarrow>
   checkDepartureDelayedTrigger e args a =
     delayed_loop (env_strings e) args sid
       (toLowerCase (env_strings e) (or_str (destination_name args) []))
       (delayed_minDelay args) (polled_departures e sid a)
       (a\<lparr> api := snd (getDepartures (env_strings e) (env_parse e) (env_fetch e sid) (env_now e) sid None (api a)) \<rparr>)"
  by (simp add: checkDepartureDelayedTrigger_def polled_departures_def split: prod.splits)

text \<open>One check makes at most one call of \<open>trigger\<close>.\<close>

lemma find_SomeD: "find P xs = Some x \<Longrightarrow> x \<in> set xs \<and> P x"
  by (auto simp: find_Some_iff)

lemma find_None_iff_all: "find P xs = None \<longleftrightarrow> (\<forall>x \<in> set xs. \<not> P x)"
  by (induction xs) auto

lemma soon_loop_cases:
  "soon_loop sp now args sid dl th deps a = a
   \<or> (\<exists>dep \<in> set deps. soon_qualifies sp now dl th dep
         \<and> \<not> (trigger_mode args = Some ''once'' \<and> ''soon_'' @ uid dep \<in> set (triggered_soon a))
         \<and> (\<exists>f. trigger_card f = Soon \<and> fired_for f = dep
                \<and> soon_loop sp now args sid dl th deps a
                    = a\<lparr> fired := fired a @ [f],
                         triggered_soon := set_add (''soon_'' @ uid dep) (triggered_soon a) \<rparr>))"
proof (cases "find (\<lambda>dep. soon_qualifies sp now dl th dep
                   \<and> \<not> (trigger_mode args = Some ''once''
                         \<and> ''soon_'' @ uid dep \<in> set (triggered_soon a))) deps")
  case None
  then show ?thesis by (simp add: soon_loop_find)
next
  case (Some dep)
  from find_SomeD [OF Some] have "dep \<in> set deps" "soon_qualifies sp now dl th dep"
    "\<not> (trigger_mode args = Some ''once'' \<and> ''soon_'' @ uid dep \<in> set (triggered_soon a))"
    by auto
  moreover have "\<exists>f. trigger_card f = Soon \<and> fired_for f = dep
                \<and> soon_loop sp now args sid dl th deps a
                    = a\<lparr> fired := fired a @ [f],
                         triggered_soon := set_add (''soon_'' @ uid dep) (triggered_soon a) \<rparr>"
    unfolding soon_loop_find Some by (rule exI, intro conjI, rule firing.select_convs; simp)
  ultimately show ?thesis by blast
qed

lemma delayed_loop_cases:
  "delayed_loop sp args sid dl md deps a = a
   \<or> (\<exists>dep \<in> set deps. delayed_qualifies sp dl md dep
         \<and> \<not> (trigger_mode args = Some ''once'' \<and> ''delayed_'' @ uid dep \<in> set (triggered_delayed a))
         \<and> (\<exists>f. trigger_card f = Delayed \<and> fired_for f = dep
                \<and> delayed_loop sp args sid dl md deps a
                    = a\<lparr> fired := fired a @ [f],
                         triggered_delayed := set_add (''delayed_'' @ uid dep) (triggered_delayed a) \<rparr>))"
proof (cases "find (\<lambda>dep. delayed_qualifies sp dl md dep
                   \<and> \<not> (trigger_mode args = Some ''once''
                         \<and> ''delayed_'' @ uid dep \<in> set (triggered_delayed a))) deps")
  case None
  then show ?thesis by (simp add: delayed_loop_find)
next
  case (Some dep)
  from find_SomeD [OF Some] have "dep \<in> set deps" "delayed_qualifies sp dl md dep"
    "\<not> (trigger_mode args = Some ''once'' \<and> ''delayed_'' @ uid dep \<in> set (triggered_delayed a))"
    by auto
  moreover have "\<exists>f. trigger_card f = Delayed \<and> fired_for f = dep
                \<and> delayed_loop sp args sid dl md deps a
                    = a\<lparr> fired := fired a @ [f],
                         triggered_delayed := set_add (''delayed_'' @ uid dep) (triggered_delayed a) \<rparr>"
    unfolding delayed_loop_find Some by (rule exI, intro conjI, rule firing.select_convs; simp)
  ultimately show ?thesis by blast
qed

text \<open>
  A check of one instance either fires nothing and leaves both sets as they are, or
  fires once, for a departure of the polled list that qualifies and is not suppressed,
  and adds its key.
\<close>

lemma checkDepartureSoonTrigger_cases:
  "(fired (checkDepartureSoonTrigger e args a) = fired a
      \<and> triggered_soon (checkDepartureSoonTrigger e args a) = triggered_soon a
      \<and> triggered_delayed (checkDepartureSoonTrigger e args a) = triggered_delayed a)
   \<or> (\<exists>sid dep f. station_id args = Some sid \<and> sid \<noteq> []
         \<and> dep \<in> set (polled_departures e sid a)
         \<and> soon_qualifies (env_strings e) (env_now e)
              (toLowerCase (env_strings e) (or_str (destination_name args) []))
              (soon_threshold args) dep
         \<and> \<not> (trigger_mode args = Some ''once'' \<and> ''soon_'' @ uid dep \<in> set (triggered_soon a))
         \<and> trigger_card f = Soon \<and> fired_for f = dep
         \<and> fired (checkDepartureSoonTrigger e args a) = fired a @ [f]
         \<and> triggered_soon (checkDepartureSoonTrigger e args a)
             = set_add (''soon_'' @ uid dep) (triggered_soon a)
         \<and> triggered_delayed (checkDepartureSoonTrigger e args a) = triggered_delayed a)"
proof (cases "station_id args = None \<or> station_id args = Some []")
  case True
  then show ?thesis by (simp add: checkDepartureSoonTrigger_skip)
next
  case False
  then obtain sid where sid: "station_id args = Some sid" "sid \<noteq> []" by auto
  let ?a = "a\<lparr> api := snd (getDepartures (env_strings e) (env_parse e) (env_fetch e sid) (env_now e) sid None (api a)) \<rparr>"
  from soon_loop_cases [of "env_strings e" "env_now e" args sid
      "toLowerCase (env_strings e) (or_str (destination_name args) [])"
      "soon_threshold args" "polled_departures e sid a" ?a]
  show ?thesis
    unfolding checkDepartureSoonTrigger_loop [OF sid]
    using sid by (elim disjE bexE exE conjE) (simp, rule disjI2, auto)
qed

lemma checkDepartureDelayedTrigger_cases:
  "(fired (checkDepartureDelayedTrigger e args a) = fired a
      \<and> triggered_soon (checkDepartureDelayedTrigger e args a) = triggered_soon a
      \<and> triggered_delayed (checkDepartureDelayedTrigger e args a) = triggered_delayed a)
   \<or> (\<exists>sid dep f. station_id args = Some sid \<and> sid \<noteq> []
         \<and> dep \<in> set (polled_departures e sid a)
         \<and> delayed_qualifies (env_strings e)
              (toLowerCase (env_strings e) (or_str (destination_name args) []))
              (delayed_minDelay args) dep
         \<and> \<not> (trigger_mode args = Some ''once'' \<and> ''delayed_'' @ uid dep \<in> set (triggered_delayed a))
         \<and> trigger_card f = Delayed \<and> fired_for f = dep
         \<and> fired (checkDepartureDelayedTrigger e args a) = fired a @ [f]
         \<and> triggered_delayed (checkDepartureDelayedTrigger e args a)
             = set_add (''delayed_'' @ uid dep) (triggered_delayed a)
         \<and> triggered_soon (checkDepartureDelayedTrigger e args a) = triggered_soon a)"
proof (cases "station_id args = None \<or> station_id args = Some []")
  case True
  then show ?thesis by (simp add: checkDepartureDelayedTrigger_skip)
next
  case False
  then obtain sid where sid: "station_id args = Some sid" "sid \<noteq> []" by auto
  let ?a = "a\<lparr> api := snd (getDepartures (env_strings e) (env_parse e) (env_fetch e sid) (env_now e) sid None (api a)) \<rparr>"
  from delayed_loop_cases [of "env_strings e" args sid
      "toLowerCase (env_strings e) (or_str (destination_name args) [])"
      "delayed_minDelay args" "polled_departures e sid a" ?a]
  show ?thesis
    unfolding checkDepartureDelayedTrigger_loop [OF sid]
    using sid by (elim disjE bexE exE conjE) (simp, rule disjI2, auto)
qed

text \<open>
  A check fires exactly when a departure of the polled list qualifies and is not
  suppressed by the once mode.
\<close>

lemma soon_fires_iff:
  assumes "station_id args = Some sid" "sid \<noteq> []"
  shows "new_firings a (checkDepartureSoonTrigger e args a) \<noteq> []
         \<longleftrightarrow> (\<exists>dep \<in> set (polled_departures e sid a).
                soon_qualifies (env_strings e) (env_now e)
                  (toLowerCase (env_strings e) (or_str (destination_name args) []))
                  (soon_threshold args) dep
                \<and> \<not> (trigger_mode args = Some ''once''
                      \<and> ''soon_'' @ uid dep \<in> set (triggered_soon a)))"
  unfolding checkDepartureSoonTrigger_loop [OF assms] soon_loop_find new_firings_def
  by (auto simp: find_None_iff_all split: option.splits dest: find_SomeD)

lemma delayed_fires_iff:
  assumes "station_id args = Some sid" "sid \<noteq> []"
  shows "new_firings a (checkDepartureDelayedTrigger e args a) \<noteq> []
         \<longleftrightarrow> (\<exists>dep \<in> set (polled_departures e sid a).
                delayed_qualifies (env_strings e)
                  (toLowerCase (env_strings e) (or_str (destination_name args) []))
                  (delayed_minDelay args) dep
                \<and> \<not> (trigger_mode args = Some ''once''
                      \<and> ''delayed_'' @ uid dep \<in> set (triggered_delayed a)))"
  unfolding checkDepartureDelayedTrigger_loop [OF assms] delayed_loop_find new_firings_def
  by (auto simp: find_None_iff_all split: option.splits dest: find_SomeD)

text \<open>
  C10. Every firing of a trigger check puts the key of the departure into the set of
  its kind, whatever the trigger mode; in once mode no check fires for a uid whose key
  is in the set; and a check fires exactly when a departure of the polled list qualifies
  whose key is not in the set or whose instance is not in once mode.
\<close>

theorem C10_firing_records_key:
  "(\<forall>f \<in> set (new_firings a (checkDepartureSoonTrigger e args a)).
      trigger_card f = Soon
      \<and> ''soon_'' @ uid (fired_for f) \<in> set (triggered_soon (checkDepartureSoonTrigger e args a)))
   \<and> (\<forall>f \<in> set (new_firings a (checkDepartureDelayedTrigger e args a)).
      trigger_card f = Delayed
      \<and> ''delayed_'' @ uid (fired_for f) \<in> set (triggered_delayed (checkDepartureDelayedTrigger e args a)))
   \<and> (trigger_mode args = Some ''once'' \<and> ''soon_'' @ u \<in> set (triggered_soon a)
        \<longrightarrow> (\<forall>f \<in> set (new_firings a (checkDepartureSoonTrigger e args a)). uid (fired_for f) \<noteq> u))
   \<and> (trigger_mode args = Some ''once'' \<and> ''delayed_'' @ u \<in> set (triggered_delayed a)
        \<longrightarrow> (\<forall>f \<in> set (new_firings a (checkDepartureDelayedTrigger e args a)). uid (fired_for f) \<noteq> u))
   \<and> (station_id args = Some sid \<and> sid \<noteq> []
        \<longrightarrow> (new_firings a (checkDepartureSoonTrigger e args a) \<noteq> []
              \<longleftrightarrow> (\<exists>dep \<in> set (polled_departures e sid a).
                     soon_qualifies (env_strings e) (env_now e)
                       (toLowerCase (env_strings e) (or_str (destination_name args) []))
                       (soon_threshold args) dep
                     \<and> \<not> (trigger_mode args = Some ''once''
                           \<and> ''soon_'' @ uid dep \<in> set (triggered_soon a))))
          \<and> (new_firings a (checkDepartureDelayedTrigger e args a) \<noteq> []
              \<longleftrightarrow> (\<exists>dep \<in> set (polled_departures e sid a).
                     delayed_qualifies (env_strings e)
                       (toLowerCase (env_strings e) (or_str (destination_name args) []))
                       (delayed_minDelay args) dep
                     \<and> \<not> (trigger_mode args = Some ''once''
                           \<and> ''delayed_'' @ uid dep \<in> set (triggered_delayed a)))))"
proof (intro conjI impI)
  show "\<forall>f \<in> set (new_firings a (checkDepartureSoonTrigger e args a)).
      trigger_card f = Soon
      \<and> ''soon_'' @ uid (fired_for f) \<in> set (triggered_soon (checkDepartureSoonTrigger e args a))"
    using checkDepartureSoonTrigger_cases [of e args a]
    by (auto simp: new_firings_def set_add_set)
  show "\<forall>f \<in> set (new_firings a (checkDepartureDelayedTrigger e args a)).
      trigger_card f = Delayed
      \<and> ''delayed_'' @ uid (fired_for f) \<in> set (triggered_delayed (checkDepartureDelayedTrigger e args a))"
    using checkDepartureDelayedTrigger_cases [of e args a]
    by (auto simp: new_firings_def set_add_set)
next
  assume "trigger_mode args = Some ''once'' \<and> ''soon_'' @ u \<in> set (triggered_soon a)"
  then show "\<forall>f \<in> set (new_firings a (checkDepartureSoonTrigger e args a)). uid (fired_for f) \<noteq> u"
    using checkDepartureSoonTrigger_cases [of e args a]
    by (auto simp: new_firings_def)
next
  assume "trigger_mode args = Some ''once'' \<and> ''delayed_'' @ u \<in> set (triggered_delayed a)"
  then show "\<forall>f \<in> set (new_firings a (checkDepartureDelayedTrigger e args a)). uid (fired_for f) \<noteq> u"
    using checkDepartureDelayedTrigger_cases [of e args a]
    by (auto simp: new_firings_def)
next
  assume s: "station_id args = Some sid \<and> sid \<noteq> []"
  then show "new_firings a (checkDepartureSoonTrigger e args a) \<noteq> []
              \<longleftrightarrow> (\<exists>dep \<in> set (polled_departures e sid a).
                     soon_qualifies (env_strings e) (env_now e)
                       (toLowerCase (env_strings e) (or_str (destination_name args) []))
                       (soon_threshold args) dep
                     \<and> \<not> (trigger_mode args = Some ''once''
                           \<and> ''soon_'' @ uid dep \<in> set (triggered_soon a)))"
    by (intro soon_fires_iff) simp_all
  from s show "new_firings a (checkDepartureDelayedTrigger e args a) \<noteq> []
              \<longleftrightarrow> (\<exists>dep \<in> set (polled_departures e sid a).
                     delayed_qualifies (env_strings e)
                       (toLowerCase (env_strings e) (or_str (destination_name args) []))
                       (delayed_minDelay args) dep
                     \<and> \<not> (trigger_mode args = Some ''once''
                           \<and> ''delayed_'' @ uid dep \<in> set (triggered_delayed a)))"
    by (intro delayed_fires_iff) simp_all
qed

subsection \<open>Two polls of a late departure\<close>

lemma parse_1436: "parseDateTime no_other (Some ''2025-06-14T14:36:00'') = Some (Some 1749904560000)"
  by code_simp

lemma departure_of_raw_late: "departure_of latin1 no_other ''asd'' raw_late = Some dep_late"
  by (simp add: raw_late_def raw_a_def dep_late_def parse_1331 parse_1436 departure_eval)

lemma collect_json_late:
  "collect_departures latin1 no_other ''asd'' [\<lparr> Passes = Some [raw_late] \<rparr>] = [dep_late]"
  by (simp add: collect_departures_def departure_of_raw_late)

lemma collect_json_a:
  "collect_departures latin1 no_other ''asd'' [\<lparr> Passes = Some [raw_a] \<rparr>] = [dep_a]"
  by (simp add: collect_departures_def departure_of_raw_a)

lemma key_timestamp_late:
  "key_timestamp ''soon_asd_5_Utrecht Centraal_1749900660000'' = Some 1749900660000"
  "key_timestamp ''delayed_asd_5_Utrecht Centraal_1749900660000'' = Some 1749900660000"
  by (simp_all add: key_timestamp_def parseInt10_def digits_value_def is_space_def char_eval)


lemma getDepartures_late:
  assumes "case departuresCache ov ''asd'' of None \<Rightarrow> True | Some c \<Rightarrow> data c = [dep_late]"
  shows "fst (getDepartures latin1 no_other (Inr json_late) now ''asd'' None ov) = [dep_late]"
    and "case departuresCache (snd (getDepartures latin1 no_other (Inr json_late) now ''asd'' None ov)) ''asd'' of
           None \<Rightarrow> True | Some c \<Rightarrow> data c = [dep_late]"
  using assms
  by (auto simp: getDepartures_def getDepartures_try_def json_late_def collect_json_late Let_def
      split: option.splits)

lemma qualifies_late:
  "now = 1749904380000 \<or> now = 1749904410000 \<Longrightarrow>
   soon_qualifies latin1 now (toLowerCase latin1 (or_str (destination_name args_once) [])) (soon_threshold args_once) dep_late"
  "delayed_qualifies latin1 (toLowerCase latin1 (or_str (destination_name args_once) [])) (delayed_minDelay args_once) dep_late"
  by (auto simp: soon_qualifies_def delayed_qualifies_def args_once_def dep_late_def or_str_def
      soon_threshold_def delayed_minDelay_def num_or_def getMinutesUntil_div char_eval)

lemma uid_dep_late: "uid dep_late = ''asd_5_Utrecht Centraal_1749900660000''"
  by (simp add: dep_late_def)

lemma poll_late:
  assumes e: "e = env_late1 \<or> e = env_late2"
    and c: "case departuresCache (api a) ''asd'' of None \<Rightarrow> True | Some c \<Rightarrow> data c = [dep_late]"
    and s: "triggered_soon a = []" and d: "triggered_delayed a = []"
  shows "map (\<lambda>f. (trigger_card f, uid (fired_for f))) (fired (checkTriggers e [args_once] [args_once] a))
           = map (\<lambda>f. (trigger_card f, uid (fired_for f))) (fired a)
             @ [(Soon, ''asd_5_Utrecht Centraal_1749900660000''),
                (Delayed, ''asd_5_Utrecht Centraal_1749900660000'')]"
    and "triggered_soon (checkTriggers e [args_once] [args_once] a) = []"
    and "triggered_delayed (checkTriggers e [args_once] [args_once] a) = []"
    and "case departuresCache (api (checkTriggers e [args_once] [args_once] a)) ''asd'' of
           None \<Rightarrow> True | Some c \<Rightarrow> data c = [dep_late]"
proof -
  have sid: "station_id args_once = Some ''asd''" "''asd'' \<noteq> []"
    by (simp_all add: args_once_def)
  have env: "env_parse e = no_other" "env_strings e = latin1" "env_fetch e ''asd'' = Inr json_late"
    "env_now e = 1749904380000 \<or> env_now e = 1749904410000"
    using e by (auto simp: env_late1_def env_late2_def)
  define a1 where "a1 = checkDepartureSoonTrigger e args_once a"
  define a2 where "a2 = checkDepartureDelayedTrigger e args_once a1"
  have p1: "polled_departures e ''asd'' a = [dep_late]"
    using getDepartures_late(1) [OF c] env by (simp add: polled_departures_def)
  have a1: "fired a1 = fired a @ [\<lparr> trigger_card = Soon, tok_line = line dep_late,
        tok_destination = destination dep_late,
        tok_minutes_until = Some (getMinutesUntil (env_now e) dep_late), tok_delay_minutes = None,
        tok_planned_time = planned_time dep_late, tok_expected_time = expected_time dep_late,
        state_stationId = ''asd'', state_destination = destination dep_late,
        fired_for = dep_late \<rparr>]"
    "triggered_soon a1 = [''soon_asd_5_Utrecht Centraal_1749900660000'']"
    "triggered_delayed a1 = []"
    "api a1 = snd (getDepartures latin1 no_other (Inr json_late) (env_now e) ''asd'' None (api a))"
    unfolding a1_def checkDepartureSoonTrigger_loop [OF sid] soon_loop_find p1
    using qualifies_late(1) [OF env(4)] s d env
    by (simp_all add: set_add_def uid_dep_late)
  have c1: "case departuresCache (api a1) ''asd'' of None \<Rightarrow> True | Some c \<Rightarrow> data c = [dep_late]"
    unfolding a1(4) by (rule getDepartures_late(2) [OF c])
  have p2: "polled_departures e ''asd'' a1 = [dep_late]"
    using getDepartures_late(1) [OF c1] env by (simp add: polled_departures_def)
  have a2: "fired a2 = fired a1 @ [\<lparr> trigger_card = Delayed, tok_line = line dep_late,
        tok_destination = destination dep_late,
        tok_minutes_until = None, tok_delay_minutes = Some (delay_minutes dep_late),
        tok_planned_time = planned_time dep_late, tok_expected_time = expected_time dep_late,
        state_stationId = ''asd'', state_destination = destination dep_late,
        fired_for = dep_late \<rparr>]"
    "triggered_soon a2 = [''soon_asd_5_Utrecht Centraal_1749900660000'']"
    "triggered_delayed a2 = [''delayed_asd_5_Utrecht Centraal_1749900660000'']"
    "api a2 = snd (getDepartures latin1 no_other (Inr json_late) (env_now e) ''asd'' None (api a1))"
    unfolding a2_def checkDepartureDelayedTrigger_loop [OF sid] delayed_loop_find p2
    using qualifies_late(2) a1 env
    by (simp_all add: set_add_def uid_dep_late)
  have c2: "case departuresCache (api a2) ''asd'' of None \<Rightarrow> True | Some c \<Rightarrow> data c = [dep_late]"
    unfolding a2(4) by (rule getDepartures_late(2) [OF c1])
  have ct: "checkTriggers e [args_once] [args_once] a = cleanupTriggeredDepartures (env_now e) a2"
    by (simp add: checkTriggers_def a2_def a1_def)
  have del: "key_deleted (env_now e - 60 * 60 * 1000) ''soon_asd_5_Utrecht Centraal_1749900660000''"
    "key_deleted (env_now e - 60 * 60 * 1000) ''delayed_asd_5_Utrecht Centraal_1749900660000''"
    using env(4) by (auto simp: key_deleted_def key_timestamp_late)
  show "map (\<lambda>f. (trigger_card f, uid (fired_for f))) (fired (checkTriggers e [args_once] [args_once] a))
           = map (\<lambda>f. (trigger_card f, uid (fired_for f))) (fired a)
             @ [(Soon, ''asd_5_Utrecht Centraal_1749900660000''),
                (Delayed, ''asd_5_Utrecht Centraal_1749900660000'')]"
    unfolding ct by (simp add: cleanupTriggeredDepartures_def Let_def a1 a2 uid_dep_late)
  show "triggered_soon (checkTriggers e [args_once] [args_once] a) = []"
    unfolding ct using del by (simp add: cleanupTriggeredDepartures_def Let_def a2)
  show "triggered_delayed (checkTriggers e [args_once] [args_once] a) = []"
    unfolding ct using del by (simp add: cleanupTriggeredDepartures_def Let_def a2)
  show "case departuresCache (api (checkTriggers e [args_once] [args_once] a)) ''asd'' of
           None \<Rightarrow> True | Some c \<Rightarrow> data c = [dep_late]"
    unfolding ct using c2 by (simp add: cleanupTriggeredDepartures_def Let_def)
qed

text \<open>
  C1 fails on the code: a departure planned 62 minutes ago and expected in 3 minutes
  fires both triggers of a once-mode instance in each of two consecutive polls. Each
  poll records the keys and the cleanup of the same poll deletes them, as the planned
  time in them is more than one hour old.
\<close>

theorem C1_once_mode_fires_again:
  "trigger_mode args_once = Some ''once''
   \<and> map (\<lambda>f. (trigger_card f, uid (fired_for f)))
        (fired (run_polls [(env_late1, [args_once], [args_once]),
                           (env_late2, [args_once], [args_once])] (onInit homey0)))
     = [(Soon, ''asd_5_Utrecht Centraal_1749900660000''),
        (Delayed, ''asd_5_Utrecht Centraal_1749900660000''),
        (Soon, ''asd_5_Utrecht Centraal_1749900660000''),
        (Delayed, ''asd_5_Utrecht Centraal_1749900660000'')]"
proof -
  let ?a0 = "onInit homey0"
  let ?a1 = "checkTriggers env_late1 [args_once] [args_once] ?a0"
  have c0: "case departuresCache (api ?a0) ''asd'' of None \<Rightarrow> True | Some c \<Rightarrow> data c = [dep_late]"
    and s0: "triggered_soon ?a0 = []" and d0: "triggered_delayed ?a0 = []" and f0: "fired ?a0 = []"
    by (simp_all add: onInit_def new_OVApi_def)
  note p1 = poll_late [OF disjI1 [OF refl] c0 s0 d0]
  note p2 = poll_late [OF disjI2 [OF refl] p1(4) p1(2) p1(3)]
  show ?thesis
    by (simp add: p2(1) p1(1) f0) (simp add: args_once_def)
qed


subsection \<open>Evaluating single checks\<close>

lemma new_OVApi_cache: "departuresCache (new_OVApi h) code = None"
  by (simp add: new_OVApi_def)

lemma onInit_fields:
  "api (onInit h) = new_OVApi h" "triggered_soon (onInit h) = []"
  "triggered_delayed (onInit h) = []" "fired (onInit h) = []"
  by (simp_all add: onInit_def)

lemma modes: "trigger_mode args_once = Some ''once''" "trigger_mode args_always = Some ''always''"
  by (simp_all add: args_always_def args_once_def)

lemma check_late_cache:
  assumes "case departuresCache (api a) ''asd'' of None \<Rightarrow> True | Some c \<Rightarrow> data c = [dep_late]"
    and "station_id args = Some ''asd''"
  shows "polled_departures env_late1 ''asd'' a = [dep_late]"
    and "case departuresCache (api (checkDepartureSoonTrigger env_late1 args a)) ''asd'' of
           None \<Rightarrow> True | Some c \<Rightarrow> data c = [dep_late]"
    and "case departuresCache (api (checkDepartureDelayedTrigger env_late1 args a)) ''asd'' of
           None \<Rightarrow> True | Some c \<Rightarrow> data c = [dep_late]"
proof -
  have sid: "station_id args = Some ''asd''" "''asd'' \<noteq> []"
    using assms(2) by simp_all
  have e: "env_parse env_late1 = no_other" "env_fetch env_late1 ''asd'' = Inr json_late"
    by (simp_all add: env_late1_def)
  show "polled_departures env_late1 ''asd'' a = [dep_late]"
    using getDepartures_late(1) [OF assms(1)] by (simp add: polled_departures_def e)
  have s: "api (checkDepartureSoonTrigger env_late1 args a)
      = snd (getDepartures latin1 no_other (Inr json_late) (env_now env_late1) ''asd'' None (api a))"
    unfolding checkDepartureSoonTrigger_loop [OF sid] soon_loop_find
    by (simp add: e split: option.splits)
  have d: "api (checkDepartureDelayedTrigger env_late1 args a)
      = snd (getDepartures latin1 no_other (Inr json_late) (env_now env_late1) ''asd'' None (api a))"
    unfolding checkDepartureDelayedTrigger_loop [OF sid] delayed_loop_find
    by (simp add: e split: option.splits)
  show "case departuresCache (api (checkDepartureSoonTrigger env_late1 args a)) ''asd'' of
           None \<Rightarrow> True | Some c \<Rightarrow> data c = [dep_late]"
    unfolding s by (rule getDepartures_late(2) [OF assms(1)])
  show "case departuresCache (api (checkDepartureDelayedTrigger env_late1 args a)) ''asd'' of
           None \<Rightarrow> True | Some c \<Rightarrow> data c = [dep_late]"
    unfolding d by (rule getDepartures_late(2) [OF assms(1)])
qed

lemma qualifies_late_always:
  "soon_qualifies latin1 (env_now env_late1) (toLowerCase latin1 (or_str (destination_name args_always) []))
     (soon_threshold args_always) dep_late"
  "delayed_qualifies latin1 (toLowerCase latin1 (or_str (destination_name args_always) []))
     (delayed_minDelay args_always) dep_late"
  using qualifies_late(1) [of "env_now env_late1"] qualifies_late(2)
  by (simp_all add: env_late1_def args_always_def soon_threshold_def delayed_minDelay_def)

lemma sid_late: "station_id args_once = Some ''asd''" "station_id args_always = Some ''asd''"
  by (simp_all add: args_once_def args_always_def)

lemma app_late1:
  "map (\<lambda>f. (trigger_card f, uid (fired_for f))) (fired app_late1)
     = [(Soon, ''asd_5_Utrecht Centraal_1749900660000'')]"
  "triggered_soon app_late1 = [''soon_asd_5_Utrecht Centraal_1749900660000'']"
  "triggered_delayed app_late1 = []"
  "case departuresCache (api app_late1) ''asd'' of None \<Rightarrow> True | Some c \<Rightarrow> data c = [dep_late]"
proof -
  have c0: "case departuresCache (api (onInit homey0)) ''asd'' of
              None \<Rightarrow> True | Some c \<Rightarrow> data c = [dep_late]"
    by (simp add: onInit_fields new_OVApi_cache)
  note p = check_late_cache(1) [OF c0 sid_late(2)]
  have m: "trigger_mode args_always \<noteq> Some ''once''"
    by (simp add: modes)
  show "map (\<lambda>f. (trigger_card f, uid (fired_for f))) (fired app_late1)
     = [(Soon, ''asd_5_Utrecht Centraal_1749900660000'')]"
    unfolding app_late1_def checkDepartureSoonTrigger_loop [OF sid_late(2) list.distinct(2)]
      soon_loop_find p
    using qualifies_late_always(1) m by (simp add: onInit_fields uid_dep_late)
  show "triggered_soon app_late1 = [''soon_asd_5_Utrecht Centraal_1749900660000'']"
    unfolding app_late1_def checkDepartureSoonTrigger_loop [OF sid_late(2) list.distinct(2)]
      soon_loop_find p
    using qualifies_late_always(1) m by (simp add: onInit_fields uid_dep_late set_add_def)
  show "triggered_delayed app_late1 = []"
    unfolding app_late1_def checkDepartureSoonTrigger_loop [OF sid_late(2) list.distinct(2)]
      soon_loop_find p
    using qualifies_late_always(1) m by (simp add: onInit_fields)
  show "case departuresCache (api app_late1) ''asd'' of None \<Rightarrow> True | Some c \<Rightarrow> data c = [dep_late]"
    unfolding app_late1_def by (rule check_late_cache(2) [OF c0 sid_late(2)])
qed

lemma app_late2:
  "map (\<lambda>f. (trigger_card f, uid (fired_for f))) (fired app_late2)
     = [(Soon, ''asd_5_Utrecht Centraal_1749900660000''),
        (Delayed, ''asd_5_Utrecht Centraal_1749900660000'')]"
  "triggered_soon app_late2 = [''soon_asd_5_Utrecht Centraal_1749900660000'']"
  "triggered_delayed app_late2 = [''delayed_asd_5_Utrecht Centraal_1749900660000'']"
  "case departuresCache (api app_late2) ''asd'' of None \<Rightarrow> True | Some c \<Rightarrow> data c = [dep_late]"
proof -
  note p = check_late_cache(1) [OF app_late1(4) sid_late(2)]
  have m: "trigger_mode args_always \<noteq> Some ''once''"
    by (simp add: modes)
  show "map (\<lambda>f. (trigger_card f, uid (fired_for f))) (fired app_late2)
     = [(Soon, ''asd_5_Utrecht Centraal_1749900660000''),
        (Delayed, ''asd_5_Utrecht Centraal_1749900660000'')]"
    unfolding app_late2_def checkDepartureDelayedTrigger_loop [OF sid_late(2) list.distinct(2)]
      delayed_loop_find p
    using qualifies_late_always(2) m by (simp add: app_late1 uid_dep_late)
  show "triggered_soon app_late2 = [''soon_asd_5_Utrecht Centraal_1749900660000'']"
    unfolding app_late2_def checkDepartureDelayedTrigger_loop [OF sid_late(2) list.distinct(2)]
      delayed_loop_find p
    using qualifies_late_always(2) m by (simp add: app_late1)
  show "triggered_delayed app_late2 = [''delayed_asd_5_Utrecht Centraal_1749900660000'']"
    unfolding app_late2_def checkDepartureDelayedTrigger_loop [OF sid_late(2) list.distinct(2)]
      delayed_loop_find p
    using qualifies_late_always(2) m by (simp add: app_late1 uid_dep_late set_add_def)
  show "case departuresCache (api app_late2) ''asd'' of None \<Rightarrow> True | Some c \<Rightarrow> data c = [dep_late]"
    unfolding app_late2_def by (rule check_late_cache(3) [OF app_late1(4) sid_late(2)])
qed

lemma once_after_always:
  "fired (checkDepartureSoonTrigger env_late1 args_once app_late2) = fired app_late2"
  "fired (checkDepartureDelayedTrigger env_late1 args_once app_late2) = fired app_late2"
proof -
  note p = check_late_cache(1) [OF app_late2(4) sid_late(1)]
  show "fired (checkDepartureSoonTrigger env_late1 args_once app_late2) = fired app_late2"
    unfolding checkDepartureSoonTrigger_loop [OF sid_late(1) list.distinct(2)] soon_loop_find p
    by (simp add: app_late2 uid_dep_late modes)
  show "fired (checkDepartureDelayedTrigger env_late1 args_once app_late2) = fired app_late2"
    unfolding checkDepartureDelayedTrigger_loop [OF sid_late(1) list.distinct(2)] delayed_loop_find p
    by (simp add: app_late2 uid_dep_late modes)
qed

lemma new_firings_late:
  "map (\<lambda>f. (trigger_card f, uid (fired_for f))) (new_firings (onInit homey0) app_late1)
     = [(Soon, ''asd_5_Utrecht Centraal_1749900660000'')]"
  "map (\<lambda>f. (trigger_card f, uid (fired_for f))) (new_firings app_late1 app_late2)
     = [(Delayed, ''asd_5_Utrecht Centraal_1749900660000'')]"
  "new_firings app_late2 (checkDepartureSoonTrigger env_late1 args_once app_late2) = []"
  "new_firings app_late2 (checkDepartureDelayedTrigger env_late1 args_once app_late2) = []"
proof -
  have l: "length (fired app_late1) = length (map (\<lambda>f. (trigger_card f, uid (fired_for f))) (fired app_late1))"
    by simp
  show "map (\<lambda>f. (trigger_card f, uid (fired_for f))) (new_firings (onInit homey0) app_late1)
     = [(Soon, ''asd_5_Utrecht Centraal_1749900660000'')]"
    by (simp add: new_firings_def onInit_fields app_late1)
  show "map (\<lambda>f. (trigger_card f, uid (fired_for f))) (new_firings app_late1 app_late2)
     = [(Delayed, ''asd_5_Utrecht Centraal_1749900660000'')]"
    unfolding new_firings_def drop_map [symmetric] l by (simp add: app_late1 app_late2)
  show "new_firings app_late2 (checkDepartureSoonTrigger env_late1 args_once app_late2) = []"
    "new_firings app_late2 (checkDepartureDelayedTrigger env_late1 args_once app_late2) = []"
    by (simp_all add: new_firings_def once_after_always)
qed

text \<open>
  The late departure fires both triggers of an instance in always mode; both keys are
  recorded, and the checks of an instance in once mode that follow fire nothing.
\<close>

theorem C10_firing_records_key_witness:
  "trigger_mode args_always = Some ''always'' \<and> station_id args_always = Some ''asd''
   \<and> polled_departures env_late1 ''asd'' (onInit homey0) = [dep_late]
   \<and> soon_qualifies latin1 (env_now env_late1)
         (toLowerCase latin1 (or_str (destination_name args_always) []))
         (soon_threshold args_always) dep_late
   \<and> delayed_qualifies latin1 (toLowerCase latin1 (or_str (destination_name args_always) []))
         (delayed_minDelay args_always) dep_late
   \<and> map (\<lambda>f. (trigger_card f, uid (fired_for f))) (new_firings (onInit homey0) app_late1)
       = [(Soon, ''asd_5_Utrecht Centraal_1749900660000'')]
   \<and> ''soon_'' @ ''asd_5_Utrecht Centraal_1749900660000'' \<in> set (triggered_soon app_late1)
   \<and> polled_departures env_late1 ''asd'' app_late1 = [dep_late]
   \<and> map (\<lambda>f. (trigger_card f, uid (fired_for f))) (new_firings app_late1 app_late2)
       = [(Delayed, ''asd_5_Utrecht Centraal_1749900660000'')]
   \<and> ''delayed_'' @ ''asd_5_Utrecht Centraal_1749900660000'' \<in> set (triggered_delayed app_late2)
   \<and> ''soon_'' @ ''asd_5_Utrecht Centraal_1749900660000'' \<in> set (triggered_soon app_late2)
   \<and> trigger_mode args_once = Some ''once'' \<and> station_id args_once = Some ''asd''
   \<and> polled_departures env_late1 ''asd'' app_late2 = [dep_late]
   \<and> new_firings app_late2 (checkDepartureSoonTrigger env_late1 args_once app_late2) = []
   \<and> new_firings app_late2 (checkDepartureDelayedTrigger env_late1 args_once app_late2) = []"
  using C10_firing_records_key [of "onInit homey0" env_late1 args_always _ "''asd''"]
    C10_firing_records_key [of app_late1 env_late1 args_always _ "''asd''"]
    C10_firing_records_key [of app_late2 env_late1 args_once
      "''asd_5_Utrecht Centraal_1749900660000''" "''asd''"]
  by (simp add: new_firings_late app_late1 app_late2 modes sid_late qualifies_late_always
      check_late_cache(1) [OF _ sid_late(1)] onInit_fields new_OVApi_cache)

subsection \<open>The threshold 0\<close>

lemma getDepartures_a:
  "fst (getDepartures latin1 no_other (Inr json_a) now ''asd'' None (new_OVApi homey0)) = [dep_a]"
  by (simp add: getDepartures_fetch fetch_attempted_new getDepartures_try_def json_a_def
      collect_json_a Let_def)

text \<open>
  C4 fails on the code for the threshold 0: \<open>args.minutes || 5\<close> and
  \<open>args.min_delay || 5\<close> give 5. With both set to 0, the departure-soon check fires
  for a departure 3 minutes away, and the departure-delayed check does not fire for a
  departure that is 4 minutes late.
\<close>

theorem C4_zero_threshold_is_five:
  "minutes args_zero = Some 0 \<and> soon_threshold args_zero = 5
   \<and> min_delay args_zero = Some 0 \<and> delayed_minDelay args_zero = 5
   \<and> polled_departures env_a ''asd'' (onInit homey0) = [dep_a]
   \<and> getMinutesUntil (env_now env_a) dep_a = 3
   \<and> map fired_for (fired (checkDepartureSoonTrigger env_a args_zero (onInit homey0))) = [dep_a]
   \<and> delay_minutes dep_a = Some 4
   \<and> fired (checkDepartureDelayedTrigger env_a args_zero (onInit homey0)) = []"
proof -
  have sid: "station_id args_zero = Some ''asd''" "''asd'' \<noteq> []"
    by (simp_all add: args_zero_def)
  have p: "polled_departures env_a ''asd'' (onInit homey0) = [dep_a]"
    by (simp add: polled_departures_def env_a_def onInit_fields getDepartures_a)
  have th: "soon_threshold args_zero = 5" "delayed_minDelay args_zero = 5"
    by (simp_all add: soon_threshold_def delayed_minDelay_def args_zero_def num_or_def)
  have m: "getMinutesUntil (env_now env_a) dep_a = 3"
    by (simp add: getMinutesUntil_div env_a_def timestamp_dep_a)
  have dl: "toLowerCase latin1 (or_str (destination_name args_zero) []) = []"
    by (simp add: args_zero_def or_str_def latin1_def)
  have s: "map fired_for (fired (checkDepartureSoonTrigger env_a args_zero (onInit homey0))) = [dep_a]"
    unfolding checkDepartureSoonTrigger_loop [OF sid] soon_loop_find p
    by (simp add: soon_qualifies_def dl th m onInit_fields)
  have d: "fired (checkDepartureDelayedTrigger env_a args_zero (onInit homey0)) = []"
    unfolding checkDepartureDelayedTrigger_loop [OF sid] delayed_loop_find p
    by (simp add: delayed_qualifies_def dl th onInit_fields dep_a_def)
  show ?thesis
    using p th m s d by simp (simp add: args_zero_def dep_a_def)
qed

subsection \<open>Printing and reading back the planned instant of a key\<close>

lemma less_10_cases:
  "(d::nat) < 10 \<Longrightarrow> d = 0 \<or> d = 1 \<or> d = 2 \<or> d = 3 \<or> d = 4 \<or> d = 5 \<or> d = 6 \<or> d = 7 \<or> d = 8 \<or> d = 9"
  by arith

lemma digit_char_facts:
  assumes "d < 10"
  shows "is_digit (digit_char d)" and "digit_val (digit_char d) = d"
    and "digit_char d \<noteq> CHR ''_''"
  using less_10_cases [OF assms]
  by (auto simp: is_digit_def digit_char_def digit_val_def decimal_digits_def)

lemma is_digit_facts:
  "is_digit c \<Longrightarrow> \<not> is_space c \<and> c \<noteq> CHR ''-'' \<and> c \<noteq> CHR ''+''"
  by (auto simp: is_digit_def is_space_def decimal_digits_def)

lemma show_nat_all_digits: "\<forall>c \<in> set (show_nat n). is_digit c \<and> c \<noteq> CHR ''_''"
proof (induction n rule: show_nat.induct)
  case (1 n)
  show ?case
  proof (cases "n < 10")
    case True
    then show ?thesis by (subst show_nat.simps) (simp add: digit_char_facts)
  next
    case False
    with 1 show ?thesis by (subst show_nat.simps) (simp add: digit_char_facts)
  qed
qed

lemma show_nat_not_Nil: "show_nat n \<noteq> []"
  by (subst show_nat.simps) simp

lemma digits_value_snoc: "digits_value (ds @ [c]) = 10 * digits_value ds + digit_val c"
  by (simp add: digits_value_def)

lemma digits_value_show_nat: "digits_value (show_nat n) = n"
proof (induction n rule: show_nat.induct)
  case (1 n)
  show ?case
  proof (cases "n < 10")
    case True
    then show ?thesis
      by (subst show_nat.simps) (simp add: digits_value_def digit_char_facts)
  next
    case False
    with 1 have "digits_value (show_nat (n div 10)) = n div 10" by simp
    with False show ?thesis
      by (subst show_nat.simps) (simp add: digits_value_snoc digit_char_facts)
  qed
qed

lemma parseInt10_show_nat: "parseInt10 (show_nat n) = Some (int n)"
proof -
  obtain c cs where s: "show_nat n = c # cs"
    using show_nat_not_Nil [of n] by (cases "show_nat n") auto
  have c: "is_digit c" using show_nat_all_digits [of n] s by simp
  have all: "takeWhile is_digit (show_nat n) = show_nat n"
    using show_nat_all_digits [of n] by (simp add: takeWhile_eq_all_conv)
  show ?thesis
    using is_digit_facts [OF c] all digits_value_show_nat [of n] show_nat_not_Nil [of n]
    unfolding parseInt10_def s by (simp add: Let_def)
qed

lemma parseInt10_show_int: "parseInt10 (show_int p) = Some p"
proof (cases "p < 0")
  case False
  then show ?thesis by (simp add: show_int_def parseInt10_show_nat)
next
  case True
  have all: "takeWhile is_digit (show_nat (nat (- p))) = show_nat (nat (- p))"
    using show_nat_all_digits [of "nat (- p)"] by (simp add: takeWhile_eq_all_conv)
  have sp: "\<not> is_space CHR ''-''" by (simp add: is_space_def)
  have "parseInt10 (CHR ''-'' # show_nat (nat (- p))) = Some (- int (nat (- p)))"
    unfolding parseInt10_def using sp
    by (simp add: Let_def all digits_value_show_nat show_nat_not_Nil)
  with True show ?thesis by (simp add: show_int_def)
qed

lemma show_int_no_underscore: "CHR ''_'' \<notin> set (show_int p)"
  using show_nat_all_digits by (auto simp: show_int_def)

lemma split_on_not_Nil: "split_on sep s \<noteq> []"
  by (induction s) (auto split: list.splits)

lemma split_on_none: "sep \<notin> set s \<Longrightarrow> split_on sep s = [s]"
  by (induction s) auto

lemma split_on_append: "split_on sep (xs @ sep # ys) = split_on sep xs @ split_on sep ys"
proof (induction xs)
  case Nil
  show ?case by simp
next
  case (Cons x xs)
  obtain p ps where "split_on sep xs = p # ps"
    using split_on_not_Nil [of sep xs] by (cases "split_on sep xs") auto
  with Cons show ?case by simp
qed

lemma key_timestamp_show_int: "key_timestamp (pre @ CHR ''_'' # show_int p) = Some p"
  by (simp add: key_timestamp_def split_on_append split_on_not_Nil
      split_on_none [OF show_int_no_underscore] parseInt10_show_int)

lemma key_deleted_show_int:
  "key_deleted oneHourAgo (pre @ CHR ''_'' # show_int p) \<longleftrightarrow> p \<noteq> 0 \<and> p < oneHourAgo"
  by (simp add: key_deleted_def key_timestamp_show_int)

text \<open>The uid of a departure ends with an underscore and its planned instant, 0 if it has none.\<close>

lemma departure_of_uid:
  assumes "departure_of sp other code raw = Some dep"
  shows "\<exists>pre. uid dep = pre @ CHR ''_'' #
           show_int (num_or (opt_time (parseDateTime other (TargetDepartureTime raw))) 0)"
proof -
  from assms have "uid dep = (code @ ''_'' @ template (LinePublicNumber raw) @ ''_''
      @ template (or_else (DestinationName50 raw) (DestinationName raw))) @ CHR ''_'' #
      show_int (num_or (opt_time (parseDateTime other (TargetDepartureTime raw))) 0)"
    by (auto simp: departure_of_def Let_def split: if_splits)
  then show ?thesis by blast
qed

text \<open>
  C3 (amended). For a key made from a departure of \<open>getDepartures\<close>, whose planned
  instant is \<open>p\<close> (0 when the planned time is missing or cannot be parsed): the cleanup
  deletes the key exactly when \<open>p\<close> is not 0 and is more than one hour before now; a
  key with the instant 0 is never deleted.
\<close>

theorem C3_cleanup_by_planned_instant:
  assumes "departure_of sp other code raw = Some dep"
    and "p = num_or (opt_time (parseDateTime other (TargetDepartureTime raw))) 0"
  shows "(''soon_'' @ uid dep \<in> set (triggered_soon (cleanupTriggeredDepartures now a))
            \<longleftrightarrow> ''soon_'' @ uid dep \<in> set (triggered_soon a)
                \<and> \<not> (p \<noteq> 0 \<and> p < now - 60 * 60 * 1000))
         \<and> (''delayed_'' @ uid dep \<in> set (triggered_delayed (cleanupTriggeredDepartures now a))
            \<longleftrightarrow> ''delayed_'' @ uid dep \<in> set (triggered_delayed a)
                \<and> \<not> (p \<noteq> 0 \<and> p < now - 60 * 60 * 1000))"
proof -
  from departure_of_uid [OF assms(1)] assms(2)
  obtain pre where u: "uid dep = pre @ CHR ''_'' # show_int p" by auto
  have "''soon_'' @ uid dep = (''soon_'' @ pre) @ CHR ''_'' # show_int p"
    and "''delayed_'' @ uid dep = (''delayed_'' @ pre) @ CHR ''_'' # show_int p"
    using u by simp_all
  then have "key_deleted (now - 60 * 60 * 1000) (''soon_'' @ uid dep) \<longleftrightarrow> p \<noteq> 0 \<and> p < now - 60 * 60 * 1000"
    and "key_deleted (now - 60 * 60 * 1000) (''delayed_'' @ uid dep) \<longleftrightarrow> p \<noteq> 0 \<and> p < now - 60 * 60 * 1000"
    by (simp_all only: key_deleted_show_int)
  then show ?thesis
    by (simp add: cleanupTriggeredDepartures_def Let_def)
qed


theorem C3_cleanup_by_planned_instant_witness:
  "departure_of latin1 no_other ''asd'' raw_late = Some dep_late
   \<and> num_or (opt_time (parseDateTime no_other (TargetDepartureTime raw_late))) 0 = 1749900660000
   \<and> ''soon_'' @ uid dep_late \<in> set (triggered_soon app_keys)
   \<and> ''delayed_'' @ uid dep_late \<in> set (triggered_delayed app_keys)
   \<and> ''soon_'' @ uid dep_late \<notin> set (triggered_soon (cleanupTriggeredDepartures 1749904380000 app_keys))
   \<and> ''delayed_'' @ uid dep_late \<notin> set (triggered_delayed (cleanupTriggeredDepartures 1749904380000 app_keys))
   \<and> ''soon_'' @ uid dep_late \<in> set (triggered_soon (cleanupTriggeredDepartures 1749904200000 app_keys))
   \<and> ''delayed_'' @ uid dep_late \<in> set (triggered_delayed (cleanupTriggeredDepartures 1749904200000 app_keys))"
proof -
  have p: "1749900660000 = num_or (opt_time (parseDateTime no_other (TargetDepartureTime raw_late))) 0"
    by (simp add: raw_late_def raw_a_def parse_1331 opt_time_def getTime_def num_or_def)
  have k: "''soon_'' @ uid dep_late \<in> set (triggered_soon app_keys)"
    "''delayed_'' @ uid dep_late \<in> set (triggered_delayed app_keys)"
    by (simp_all add: app_keys_def)
  from C3_cleanup_by_planned_instant [OF departure_of_raw_late p, of 1749904380000 app_keys]
    C3_cleanup_by_planned_instant [OF departure_of_raw_late p, of 1749904200000 app_keys]
  show ?thesis
    using k departure_of_raw_late p [symmetric] by simp
qed

subsection \<open>A key without a planned instant\<close>

lemma parse_unknown: "parseDateTime no_other (Some ''unknown'') = Some None"
  by code_simp

lemma departure_of_raw_unplanned: "departure_of latin1 no_other ''asd'' raw_unplanned = Some dep_unplanned"
  by (simp add: raw_unplanned_def raw_b_def dep_unplanned_def parse_unknown parse_1335 departure_eval)

lemma getDepartures_unplanned:
  "fst (getDepartures latin1 no_other (Inr json_unplanned) now ''asd'' None (new_OVApi homey0)) = [dep_unplanned]"
  by (simp add: getDepartures_fetch fetch_attempted_new getDepartures_try_def json_unplanned_def
      collect_departures_def departure_of_raw_unplanned Let_def)

text \<open>
  C3 as stated fails for the embedded instant 0: a once-mode departure-soon instance
  fires for a departure whose planned time cannot be parsed, the key ends in \<open>_0\<close>, and
  the cleanup of the same poll keeps it, although 0 is more than one hour before now.
\<close>

theorem C3_cleanup_counterexample:
  "polled_departures env_unplanned ''asd'' (onInit homey0) = [dep_unplanned]
   \<and> triggered_soon (checkTriggers env_unplanned [args_plain] [] (onInit homey0))
       = [''soon_asd_12_Amstelveen_0'']
   \<and> key_timestamp ''soon_asd_12_Amstelveen_0'' = Some 0
   \<and> (0::int) < env_now env_unplanned - 60 * 60 * 1000"
proof -
  have sid: "station_id args_plain = Some ''asd''" "''asd'' \<noteq> []"
    by (simp_all add: args_plain_def)
  have p: "polled_departures env_unplanned ''asd'' (onInit homey0) = [dep_unplanned]"
    by (simp add: polled_departures_def env_unplanned_def onInit_fields getDepartures_unplanned)
  have q: "soon_qualifies latin1 (env_now env_unplanned) (toLowerCase latin1 (or_str (destination_name args_plain) []))
      (soon_threshold args_plain) dep_unplanned"
    by (simp add: soon_qualifies_def args_plain_def or_str_def latin1_def soon_threshold_def
        num_or_def getMinutesUntil_div env_unplanned_def dep_unplanned_def)
  have s: "triggered_soon (checkDepartureSoonTrigger env_unplanned args_plain (onInit homey0))
      = [''soon_asd_12_Amstelveen_0'']"
    unfolding checkDepartureSoonTrigger_loop [OF sid] soon_loop_find p
    using q by (simp add: onInit_fields set_add_def) (simp add: dep_unplanned_def)
  have k: "key_timestamp ''soon_asd_12_Amstelveen_0'' = Some 0"
    using key_timestamp_show_int [of "''soon_asd_12_Amstelveen''" 0] by (simp add: show_int_def show_nat.simps digit_char_def decimal_digits_def)
  have "triggered_soon (checkTriggers env_unplanned [args_plain] [] (onInit homey0))
       = [''soon_asd_12_Amstelveen_0'']"
    by (simp add: checkTriggers_def cleanupTriggeredDepartures_def Let_def s key_deleted_def k)
  with p k show ?thesis by (simp add: env_unplanned_def)
qed

subsection \<open>Years and days\<close>

lemma div_add1:
  fixes a k :: int
  assumes "0 < k"
  shows "(a + 1) div k = a div k + (if (a + 1) mod k = 0 then 1 else 0)"
proof (cases "a mod k + 1 = k")
  case True
  have "a + 1 = k * (a div k + 1)"
    using True by (metis add.assoc distrib_left mult.right_neutral mult_div_mod_eq)
  then show ?thesis using assms by simp
next
  case False
  have "a mod k < k" "0 \<le> a mod k" using assms by simp_all
  with False have r: "0 \<le> a mod k + 1" "a mod k + 1 < k" by linarith+
  have e: "a + 1 = (a mod k + 1) + k * (a div k)"
    using mult_div_mod_eq [of k a] by linarith
  have "((a mod k + 1) + k * (a div k)) div k = a div k + (a mod k + 1) div k"
    using assms by (simp only: div_mult_self2)
  then have "(a + 1) div k = a div k"
    using r by (simp only: e [symmetric] div_pos_pos_trivial)
  moreover have "((a mod k + 1) + k * (a div k)) mod k = (a mod k + 1) mod k"
    by (simp only: mod_mult_self2)
  then have "(a + 1) mod k = a mod k + 1"
    using r by (simp only: e [symmetric] mod_pos_pos_trivial)
  moreover have "a mod k + 1 \<noteq> 0" using r \<open>0 \<le> a mod k\<close> by linarith
  ultimately show ?thesis by simp
qed

lemma mod_shift:
  fixes y :: int
  shows "(y - 1968) mod 4 = y mod 4" "(y - 1900) mod 100 = y mod 100" "(y - 1600) mod 400 = y mod 400"
  using mod_mult_self2 [of y 4 "- 492"] mod_mult_self2 [of y 100 "- 19"] mod_mult_self2 [of y 400 "- 4"]
  by simp_all

lemma DaysInYear_cases: "DaysInYear y = 365 \<or> DaysInYear y = 366"
  by (simp add: DaysInYear_def)

lemma mod_400_100_4:
  fixes y :: int
  shows "y mod 400 = 0 \<Longrightarrow> y mod 100 = 0" "y mod 100 = 0 \<Longrightarrow> y mod 4 = 0"
proof -
  have "(100::int) dvd 400" "(4::int) dvd 100" by simp_all
  then show "y mod 400 = 0 \<Longrightarrow> y mod 100 = 0" "y mod 100 = 0 \<Longrightarrow> y mod 4 = 0"
    by (metis dvd_trans mod_0_imp_dvd dvd_imp_mod_0)+
qed

lemma DayFromYear_Suc: "DayFromYear (y + 1) = DayFromYear y + DaysInYear y"
proof -
  have a: "(y + 1 - 1969) div 4 = (y - 1969) div 4 + (if y mod 4 = 0 then 1 else 0)"
    using div_add1 [of 4 "y - 1969"] mod_shift(1) [of y] by simp
  have b: "(y + 1 - 1901) div 100 = (y - 1901) div 100 + (if y mod 100 = 0 then 1 else 0)"
    using div_add1 [of 100 "y - 1901"] mod_shift(2) [of y] by simp
  have c: "(y + 1 - 1601) div 400 = (y - 1601) div 400 + (if y mod 400 = 0 then 1 else 0)"
    using div_add1 [of 400 "y - 1601"] mod_shift(3) [of y] by simp
  show ?thesis
    unfolding DayFromYear_def DaysInYear_def a b c using mod_400_100_4 [of y] by auto
qed

lemma DayFromYear_mono: "y \<le> y' \<Longrightarrow> DayFromYear y \<le> DayFromYear y'"
proof (induction y' rule: int_ge_induct)
  case base
  show ?case by simp
next
  case (step i)
  then show ?case using DayFromYear_Suc [of i] DaysInYear_cases [of i] by auto
qed

text \<open>The estimate of \<open>YearFromDay\<close> is at most one year off.\<close>

lemma estimate_low:
  fixes A B C q d :: int
  assumes "4 * A \<le> q" "68 + q - 100 < 100 * B" "400 * C \<le> 368 + q" "146097 * q \<le> d * 400"
  shows "365 * (q - 1) + A - B + C \<le> d"
proof -
  have 1: "400 * A \<le> 100 * q" using assms(1) by simp
  have 2: "- (400 * B) \<le> - (4 * q) + 128" using assms(2) by simp
  have "400 * (365 * (q - 1) + A - B + C) = 146000 * q - 146000 + 400 * A - 400 * B + 400 * C"
    by (simp add: algebra_simps)
  also have "\<dots> \<le> 146000 * q - 146000 + 100 * q + (- (4 * q) + 128) + (368 + q)"
    using 1 2 assms(3) by simp
  also have "\<dots> \<le> 146097 * q" by simp
  also have "\<dots> \<le> 400 * d" using assms(4) by simp
  finally show ?thesis by simp
qed

lemma estimate_high:
  fixes A B C q d :: int
  assumes "3 + q - 4 < 4 * A" "100 * B \<le> 71 + q" "371 + q - 400 < 400 * C"
    "d * 400 < 146097 * q + 146097"
  shows "d < 365 * (q + 2) + A - B + C"
proof -
  have 1: "100 * q - 100 < 400 * A" using assms(1) by simp
  have 2: "- (4 * q) - 284 \<le> - (400 * B)" using assms(2) by simp
  have "400 * d < 146097 * q + 146097" using assms(4) by simp
  also have "\<dots> \<le> 146000 * q + 292000 + (100 * q - 100) + (- (4 * q) - 284) + (q - 29)"
    by simp
  also have "\<dots> < 146000 * q + 292000 + 400 * A + - (400 * B) + 400 * C"
    using 1 2 assms(3) by simp
  also have "\<dots> = 400 * (365 * (q + 2) + A - B + C)"
    by (simp add: algebra_simps)
  finally show ?thesis by simp
qed

lemma year_estimate:
  fixes d :: int
  defines "q \<equiv> (d * 400) div 146097"
  shows "DayFromYear (1970 + q - 1) \<le> d" and "d < DayFromYear (1970 + q + 2)"
proof -
  have q1: "146097 * q \<le> d * 400" and q2: "d * 400 < 146097 * q + 146097"
    unfolding q_def using mult_div_mod_eq [of 146097 "d * 400"]
      pos_mod_bound [of 146097 "d * 400"] pos_mod_sign [of 146097 "d * 400"]
    by linarith+
  have lo: "\<And>a k::int. 0 < k \<Longrightarrow> k * (a div k) \<le> a"
    and hi: "\<And>a k::int. 0 < k \<Longrightarrow> a - k < k * (a div k)"
  proof -
    fix a k :: int assume k: "0 < k"
    show "k * (a div k) \<le> a"
      using mult_div_mod_eq [of k a] pos_mod_sign [OF k, of a] by linarith
    show "a - k < k * (a div k)"
      using mult_div_mod_eq [of k a] pos_mod_bound [OF k, of a] by linarith
  qed
  have "DayFromYear (1970 + q - 1) = 365 * (q - 1) + q div 4 - (68 + q) div 100 + (368 + q) div 400"
    by (simp add: DayFromYear_def)
  moreover have "4 * (q div 4) \<le> q" "68 + q - 100 < 100 * ((68 + q) div 100)"
    "400 * ((368 + q) div 400) \<le> 368 + q"
    using lo [of 4 q] hi [of 100 "68 + q"] lo [of 400 "368 + q"] by simp_all
  ultimately show "DayFromYear (1970 + q - 1) \<le> d"
    using q1 estimate_low [of "q div 4" q "(68 + q) div 100" "(368 + q) div 400" d] by simp
  have "DayFromYear (1970 + q + 2) = 365 * (q + 2) + (3 + q) div 4 - (71 + q) div 100 + (371 + q) div 400"
    by (simp add: DayFromYear_def)
  moreover have "3 + q - 4 < 4 * ((3 + q) div 4)" "100 * ((71 + q) div 100) \<le> 71 + q"
    "371 + q - 400 < 400 * ((371 + q) div 400)"
    using hi [of 4 "3 + q"] lo [of 100 "71 + q"] hi [of 400 "371 + q"] by simp_all
  ultimately show "d < DayFromYear (1970 + q + 2)"
    using q2 estimate_high [of q "(3 + q) div 4" "(71 + q) div 100" "(371 + q) div 400" d] by simp
qed

lemma YearFromDay_bounds:
  "DayFromYear (YearFromDay d) \<le> d \<and> d < DayFromYear (YearFromDay d + 1)"
  using year_estimate [of d]
  by (auto simp: YearFromDay_def Let_def algebra_simps)

lemma YearFromDay_unique:
  assumes "DayFromYear y \<le> d" and "d < DayFromYear (y + 1)"
  shows "YearFromDay d = y"
proof (rule ccontr)
  assume ne: "YearFromDay d \<noteq> y"
  let ?Y = "YearFromDay d"
  from YearFromDay_bounds [of d] have b: "DayFromYear ?Y \<le> d" "d < DayFromYear (?Y + 1)" by auto
  show False
  proof (cases "?Y < y")
    case True
    then have "DayFromYear (?Y + 1) \<le> DayFromYear y" by (intro DayFromYear_mono) simp
    with b assms show False by linarith
  next
    case False
    with ne have "DayFromYear (y + 1) \<le> DayFromYear ?Y" by (intro DayFromYear_mono) simp
    with b assms show False by linarith
  qed
qed


subsection \<open>From the fields of a date to its time value and back\<close>

lemma month_cases:
  fixes m :: int
  assumes "1 \<le> m" "m \<le> 12"
  shows "m = 1 \<or> m = 2 \<or> m = 3 \<or> m = 4 \<or> m = 5 \<or> m = 6 \<or> m = 7 \<or> m = 8 \<or> m = 9
         \<or> m = 10 \<or> m = 11 \<or> m = 12"
  using assms by arith

lemma MakeDay_valid:
  assumes "1 \<le> m" "m \<le> 12" "1 \<le> dd" "dd \<le> DaysInMonth y m"
  shows "MakeDay y (m - 1) dd = DayFromYear y + (DaysBeforeMonth (DaysInYear y) (m - 1) + dd - 1)"
    and "0 \<le> DaysBeforeMonth (DaysInYear y) (m - 1) + dd - 1"
    and "DaysBeforeMonth (DaysInYear y) (m - 1) + dd - 1 < DaysInYear y"
proof -
  have dm: "(m - 1) div 12 = 0" "(m - 1) mod 12 = m - 1"
    using assms(1,2) by (simp_all add: div_pos_pos_trivial mod_pos_pos_trivial)
  show "MakeDay y (m - 1) dd = DayFromYear y + (DaysBeforeMonth (DaysInYear y) (m - 1) + dd - 1)"
    by (simp add: MakeDay_def Let_def dm)
  show "0 \<le> DaysBeforeMonth (DaysInYear y) (m - 1) + dd - 1"
    using month_cases [OF assms(1,2)] DaysInYear_cases [of y] assms(3)
    by (elim disjE) (simp_all add: DaysBeforeMonth_def)
  show "DaysBeforeMonth (DaysInYear y) (m - 1) + dd - 1 < DaysInYear y"
    using month_cases [OF assms(1,2)] DaysInYear_cases [of y] assms(4)
    by (elim disjE) (simp_all add: DaysBeforeMonth_def DaysInMonth_def)
qed

lemma Day_MakeDate:
  assumes "0 \<le> tod" "tod < msPerDay"
  shows "Day (MakeDate day tod) = day"
proof -
  have "(tod + msPerDay * day) div msPerDay = day + tod div msPerDay"
    by (simp only: div_mult_self2 [of msPerDay tod day] msPerDay_def)
  then show ?thesis
    using assms by (simp add: Day_def MakeDate_def div_pos_pos_trivial algebra_simps)
qed

lemma MakeTime_bounds:
  assumes "0 \<le> h" "h \<le> 23" "0 \<le> n" "n \<le> 59" "0 \<le> sec" "sec \<le> 59"
  shows "0 \<le> MakeTime h n sec 0" and "MakeTime h n sec 0 < msPerDay"
  using assms by (simp_all add: MakeTime_def msPerDay_def)

text \<open>
  The getters of \<open>Date\<close> give back the fields of a valid date: the year, the month
  counted from 0, and the day of the month.
\<close>

lemma date_roundtrip:
  assumes "1 \<le> m" "m \<le> 12" "1 \<le> dd" "dd \<le> DaysInMonth y m" "0 \<le> tod" "tod < msPerDay"
  defines "t \<equiv> MakeDate (MakeDay y (m - 1) dd) tod"
  shows "YearFromTime t = y" and "MonthFromTime t = m - 1" and "DateFromTime t = dd"
proof -
  note md = MakeDay_valid [OF assms(1-4)]
  have day: "Day t = DayFromYear y + (DaysBeforeMonth (DaysInYear y) (m - 1) + dd - 1)"
    unfolding t_def Day_MakeDate [OF assms(5,6)] md(1) ..
  show yr: "YearFromTime t = y"
    unfolding YearFromTime_def
    by (rule YearFromDay_unique) (use day md(2,3) DayFromYear_Suc [of y] in linarith)+
  have dwy: "DayWithinYear t = DaysBeforeMonth (DaysInYear y) (m - 1) + dd - 1"
    by (simp add: DayWithinYear_def yr day)
  have leap: "InLeapYear t = (if DaysInYear y = 366 then 1 else 0)"
    by (simp add: InLeapYear_def yr)
  show mo: "MonthFromTime t = m - 1"
    unfolding MonthFromTime_def dwy leap Let_def
    using month_cases [OF assms(1,2)] DaysInYear_cases [of y] assms(3,4)
    by (elim disjE) (simp_all add: DaysBeforeMonth_def DaysInMonth_def)
  show "DateFromTime t = dd"
    unfolding DateFromTime_def mo dwy leap Let_def
    using month_cases [OF assms(1,2)] DaysInYear_cases [of y]
    by (elim disjE) (simp_all add: DaysBeforeMonth_def)
qed

subsection \<open>The last Sunday of a month of 31 days\<close>

lemma last_aligned_day_eval:
  "last (filter (\<lambda>d. ((0::int) + (d - 31)) mod 7 = 0) [1..31]) = 31 - 0"
  "last (filter (\<lambda>d. ((1::int) + (d - 31)) mod 7 = 0) [1..31]) = 31 - 1"
  "last (filter (\<lambda>d. ((2::int) + (d - 31)) mod 7 = 0) [1..31]) = 31 - 2"
  "last (filter (\<lambda>d. ((3::int) + (d - 31)) mod 7 = 0) [1..31]) = 31 - 3"
  "last (filter (\<lambda>d. ((4::int) + (d - 31)) mod 7 = 0) [1..31]) = 31 - 4"
  "last (filter (\<lambda>d. ((5::int) + (d - 31)) mod 7 = 0) [1..31]) = 31 - 5"
  "last (filter (\<lambda>d. ((6::int) + (d - 31)) mod 7 = 0) [1..31]) = 31 - 6"
  by code_simp+

lemma last_aligned_day:
  fixes w :: int
  assumes "0 \<le> w" "w < 7"
  shows "last (filter (\<lambda>d. (w + (d - 31)) mod 7 = 0) [1..31]) = 31 - w"
proof -
  from assms have "w = 0 \<or> w = 1 \<or> w = 2 \<or> w = 3 \<or> w = 4 \<or> w = 5 \<or> w = 6" by arith
  then show ?thesis
    by (elim disjE) (simp_all only: last_aligned_day_eval)
qed

lemma MakeDay_31:
  assumes "m = 3 \<or> m = 10"
  shows "MakeDay y (m - 1) d = MakeDay y (m - 1) 31 + (d - 31)"
  using assms by (auto simp: MakeDay_def Let_def)

lemma spec_last_sunday_eq:
  assumes "m = 3 \<or> m = 10"
  shows "spec_last_sunday y m = 31 - WeekDay (MakeDate (MakeDay y (m - 1) 31) (MakeTime 0 0 0 0))"
proof -
  let ?w = "WeekDay (MakeDate (MakeDay y (m - 1) 31) (MakeTime 0 0 0 0))"
  have t0: "MakeTime 0 0 0 0 = 0" by (simp add: MakeTime_def)
  have z: "(0::int) \<le> 0" "(0::int) < msPerDay" by (simp_all add: msPerDay_def)
  have w: "?w = (MakeDay y (m - 1) 31 + 4) mod 7"
    by (simp add: WeekDay_def t0 Day_MakeDate [OF z])
  have "spec_is_sunday y m d \<longleftrightarrow> (?w + (d - 31)) mod 7 = 0" for d
  proof -
    have "WeekDay (utc_of_fields (y, m, d, 0, 0, 0)) = (MakeDay y (m - 1) d + 4) mod 7"
      by (simp add: WeekDay_def utc_of_fields_def t0 Day_MakeDate [OF z])
    also have "\<dots> = ((MakeDay y (m - 1) 31 + 4) + (d - 31)) mod 7"
      by (simp add: MakeDay_31 [OF assms, of y d] algebra_simps)
    also have "\<dots> = (?w + (d - 31)) mod 7"
      unfolding w by (simp only: mod_add_left_eq)
    finally show ?thesis by (simp add: spec_is_sunday_def)
  qed
  then have "spec_is_sunday y m = (\<lambda>d. (?w + (d - 31)) mod 7 = 0)"
    by (intro ext)
  then have "spec_last_sunday y m = last (filter (\<lambda>d. (?w + (d - 31)) mod 7 = 0) [1..31])"
    by (simp only: spec_last_sunday_def)
  also have "\<dots> = 31 - ?w"
    by (rule last_aligned_day) (simp_all add: WeekDay_def)
  finally show ?thesis .
qed

subsection \<open>Time values of the years 0 to 9999 are in range\<close>

lemma DayFromYear_range:
  assumes "0 \<le> y" "y \<le> 9999"
  shows "- 719528 \<le> DayFromYear y" and "DayFromYear (y + 1) \<le> 2932897"
proof -
  have "DayFromYear 0 \<le> DayFromYear y" using assms by (intro DayFromYear_mono) simp
  moreover have "DayFromYear 0 = - 719528" by (simp add: DayFromYear_def)
  ultimately show "- 719528 \<le> DayFromYear y" by simp
  have "DayFromYear (y + 1) \<le> DayFromYear 10000" using assms by (intro DayFromYear_mono) simp
  moreover have "DayFromYear 10000 = 2932897" by (simp add: DayFromYear_def)
  ultimately show "DayFromYear (y + 1) \<le> 2932897" by simp
qed

lemma TimeClip_valid:
  assumes "0 \<le> y" "y \<le> 9999" "1 \<le> m" "m \<le> 12" "1 \<le> dd" "dd \<le> DaysInMonth y m"
    "0 \<le> tod" "tod < msPerDay" "\<bar>off\<bar> \<le> 120 * 60 * 1000"
  shows "TimeClip (MakeDate (MakeDay y (m - 1) dd) tod - off) = Some (MakeDate (MakeDay y (m - 1) dd) tod - off)"
proof -
  note md = MakeDay_valid [OF assms(3-6)]
  note r = DayFromYear_range [OF assms(1,2)]
  have "- 719528 \<le> MakeDay y (m - 1) dd" "MakeDay y (m - 1) dd \<le> 2932897"
    using md r DayFromYear_Suc [of y] by linarith+
  then have "\<bar>MakeDate (MakeDay y (m - 1) dd) tod - off\<bar> \<le> 8640000000000000"
    using assms(7-9) by (simp add: MakeDate_def msPerDay_def)
  then show ?thesis by (simp add: TimeClip_def)
qed


subsection \<open>Strings of the form \<open>YYYY-MM-DDTHH:mm:ss\<close>\<close>

lemma is_digit_chars:
  assumes "is_digit c"
  shows "c \<noteq> CHR ''Z''" "c \<noteq> CHR ''+''" "c \<noteq> CHR '':''" "c \<noteq> CHR ''-''" "c \<noteq> CHR ''T''"
    and "digit_val c \<le> 9"
  using assms by (auto simp: is_digit_def digit_val_def decimal_digits_def)

lemma two_digits_range: "is_digit a \<Longrightarrow> is_digit b \<Longrightarrow> 0 \<le> two_digits a b \<and> two_digits a b \<le> 99"
  using is_digit_chars(6) [of a] is_digit_chars(6) [of b] by (simp add: two_digits_def)

lemma iso_fields_SomeD:
  assumes "iso_fields s = Some f"
  shows "\<exists>y1 y2 y3 y4 m1 m2 d1 d2 h1 h2 n1 n2 s1 s2.
           s = [y1, y2, y3, y4, CHR ''-'', m1, m2, CHR ''-'', d1, d2, CHR ''T'',
                h1, h2, CHR '':'', n1, n2, CHR '':'', s1, s2]
           \<and> is_digit y1 \<and> is_digit y2 \<and> is_digit y3 \<and> is_digit y4 \<and> is_digit m1 \<and> is_digit m2
           \<and> is_digit d1 \<and> is_digit d2 \<and> is_digit h1 \<and> is_digit h2 \<and> is_digit n1 \<and> is_digit n2
           \<and> is_digit s1 \<and> is_digit s2
           \<and> f = (100 * two_digits y1 y2 + two_digits y3 y4, two_digits m1 m2, two_digits d1 d2,
                  two_digits h1 h2, two_digits n1 n2, two_digits s1 s2)"
  using assms unfolding iso_fields_def
  by (simp split: list.splits if_splits)

lemma digits_no_zone:
  assumes "is_digit y1" "is_digit y2" "is_digit y3" "is_digit y4" "is_digit m1" "is_digit m2"
    "is_digit d1" "is_digit d2" "is_digit h1" "is_digit h2" "is_digit n1" "is_digit n2"
    "is_digit s1" "is_digit s2"
  defines "s \<equiv> [y1, y2, y3, y4, CHR ''-'', m1, m2, CHR ''-'', d1, d2, CHR ''T'',
                h1, h2, CHR '':'', n1, n2, CHR '':'', s1, s2]"
  shows "\<not> includes_str s ''Z''" and "\<not> includes_str s ''+''" and "\<not> time_dash_test s"
  unfolding s_def using assms(1-14)
  by (simp_all add: is_digit_chars is_digit_chars(1-5) [THEN not_sym])

lemma iso_fields_no_zone:
  assumes "iso_fields s = Some f"
  shows "s \<noteq> []" and "\<not> includes_str s ''Z''" and "\<not> includes_str s ''+''" and "\<not> time_dash_test s"
proof -
  from iso_fields_SomeD [OF assms] obtain y1 y2 y3 y4 m1 m2 d1 d2 h1 h2 n1 n2 s1 s2 where
    s: "s = [y1, y2, y3, y4, CHR ''-'', m1, m2, CHR ''-'', d1, d2, CHR ''T'',
                h1, h2, CHR '':'', n1, n2, CHR '':'', s1, s2]"
    and d: "is_digit y1" "is_digit y2" "is_digit y3" "is_digit y4" "is_digit m1" "is_digit m2"
    "is_digit d1" "is_digit d2" "is_digit h1" "is_digit h2" "is_digit n1" "is_digit n2"
    "is_digit s1" "is_digit s2"
    by blast
  show "s \<noteq> []" using s by simp
  show "\<not> includes_str s ''Z''" "\<not> includes_str s ''+''" "\<not> time_dash_test s"
    unfolding s by (rule digits_no_zone [OF d])+
qed

lemma iso_fields_range:
  assumes "iso_fields s = Some (y, m, d, h, n, sec)"
  shows "0 \<le> y" "y \<le> 9999" "0 \<le> h" "0 \<le> n" "0 \<le> sec"
proof -
  define f where "f = (y, m, d, h, n, sec)"
  from assms have "iso_fields s = Some f" by (simp add: f_def)
  from iso_fields_SomeD [OF this] obtain y1 y2 y3 y4 m1 m2 d1 d2 h1 h2 n1 n2 s1 s2 where
    dg: "is_digit y1" "is_digit y2" "is_digit y3" "is_digit y4" "is_digit m1" "is_digit m2"
    "is_digit d1" "is_digit d2" "is_digit h1" "is_digit h2"
    "is_digit n1" "is_digit n2" "is_digit s1" "is_digit s2"
    and f: "f = (100 * two_digits y1 y2 + two_digits y3 y4, two_digits m1 m2,
        two_digits d1 d2, two_digits h1 h2, two_digits n1 n2, two_digits s1 s2)"
    by (elim exE conjE) (rule that; assumption)
  from f have e: "y = 100 * two_digits y1 y2 + two_digits y3 y4" "h = two_digits h1 h2"
      "n = two_digits n1 n2" "sec = two_digits s1 s2"
    unfolding f_def by simp_all
  have "0 \<le> two_digits y1 y2 \<and> two_digits y1 y2 \<le> 99"
    "0 \<le> two_digits y3 y4 \<and> two_digits y3 y4 \<le> 99"
    "0 \<le> two_digits h1 h2" "0 \<le> two_digits n1 n2" "0 \<le> two_digits s1 s2"
    using dg by (simp_all add: two_digits_range)
  then show "0 \<le> y" "y \<le> 9999" "0 \<le> h" "0 \<le> n" "0 \<le> sec"
    unfolding e by linarith+
qed


subsection \<open>\<open>_getAmsterdamOffset\<close> and \<open>_parseDateTime\<close> on such strings\<close>

lemma DaysInMonth_31: "DaysInMonth y 3 = 31" "DaysInMonth y 10 = 31"
  by (simp_all add: DaysInMonth_def)

lemma Date_of_fields_31:
  assumes "100 \<le> y" "y \<le> 9999" "m = 3 \<or> m = 10"
  shows "Date_of_fields y (m - 1) 31 = Some (MakeDate (MakeDay y (m - 1) 31) (MakeTime 0 0 0 0))"
proof -
  have fy: "MakeFullYear y = y" using assms(1) by (simp add: MakeFullYear_def)
  have t0: "MakeTime 0 0 0 0 = 0" by (simp add: MakeTime_def)
  have v: "1 \<le> m" "m \<le> 12" "(1::int) \<le> 31" "31 \<le> DaysInMonth y m" "0 \<le> y"
    using assms by (auto simp: DaysInMonth_31)
  have z: "(0::int) \<le> 0" "(0::int) < msPerDay" "\<bar>0::int\<bar> \<le> 120 * 60 * 1000"
    by (simp_all add: msPerDay_def)
  from TimeClip_valid [OF v(5) assms(2) v(1-4) z]
  show ?thesis by (simp add: Date_of_fields_def fy t0)
qed

lemma getAmsterdamOffset_valid:
  assumes "100 \<le> y" "y \<le> 9999" "1 \<le> m" "m \<le> 12" "1 \<le> dd" "dd \<le> DaysInMonth y m"
    "0 \<le> tod" "tod < msPerDay"
  shows "getAmsterdamOffset (Some (MakeDate (MakeDay y (m - 1) dd) tod))
           = (if spec_dst y m dd then 120 else 60)"
proof -
  note rt = date_roundtrip [OF assms(3-8)]
  have g3: "getDay (Date_of_fields y 2 31)
      = Some (WeekDay (MakeDate (MakeDay y 2 31) (MakeTime 0 0 0 0)))"
    using Date_of_fields_31 [OF assms(1,2), of 3] by (simp add: getDay_def)
  have g10: "getDay (Date_of_fields y 9 31)
      = Some (WeekDay (MakeDate (MakeDay y 9 31) (MakeTime 0 0 0 0)))"
    using Date_of_fields_31 [OF assms(1,2), of 10] by (simp add: getDay_def)
  have l3: "spec_last_sunday y 3 = 31 - WeekDay (MakeDate (MakeDay y 2 31) (MakeTime 0 0 0 0))"
    using spec_last_sunday_eq [of 3 y] by simp
  have l10: "spec_last_sunday y 10 = 31 - WeekDay (MakeDate (MakeDay y 9 31) (MakeTime 0 0 0 0))"
    using spec_last_sunday_eq [of 10 y] by simp
  show ?thesis
    unfolding getAmsterdamOffset_def getFullYear_def getMonth_def getDate_def
    by (simp add: rt g3 g10 l3 l10 Let_def num_ge_def num_lt_def spec_dst_def)
qed

text \<open>
  For the years from 100 on, \<open>_parseDateTime\<close> follows the rule of the specification.
  Whatever the form of a string without a zone, when the host's parser reads it as a
  valid date and time of such a year, the result is these fields read as UTC, less 120
  minutes from the last Sunday of March up to the day before the last Sunday of October,
  less 60 minutes otherwise.
\<close>

lemma parseDateTime_amsterdam_rule:
  assumes p: "Date_parse other s = Some (utc_of_fields (y, m, d, h, n, sec))"
    and v: "valid_fields (y, m, d, h, n, sec)"
    and y: "100 \<le> y" "y \<le> 9999"
    and t: "0 \<le> h" "0 \<le> n" "0 \<le> sec"
    and z: "s \<noteq> []" "\<not> includes_str s ''Z''" "\<not> includes_str s ''+''" "\<not> time_dash_test s"
  shows "parseDateTime other (Some s) = Some (Some (spec_normalize (y, m, d, h, n, sec)))"
proof -
  from v have v: "1 \<le> m" "m \<le> 12" "1 \<le> d" "d \<le> DaysInMonth y m"
    "h \<le> 23" "n \<le> 59" "sec \<le> 59"
    by (simp_all add: valid_fields_def)
  from y have y0: "0 \<le> y" by simp
  note tb = MakeTime_bounds [OF t(1) v(5) t(2) v(6) t(3) v(7)]
  let ?t = "MakeDate (MakeDay y (m - 1) d) (MakeTime h n sec 0)"
  have utc: "utc_of_fields (y, m, d, h, n, sec) = ?t"
    by (simp add: utc_of_fields_def)
  have clip0: "TimeClip ?t = Some ?t"
    using TimeClip_valid [OF y0 y(2) v(1-4) tb, of 0] by simp
  have date: "Date_of_string other s = Some ?t"
    using p by (simp add: Date_of_string_def Date_of_value_def utc clip0)
  have off: "getAmsterdamOffset (Some ?t) = (if spec_dst y m d then 120 else 60)"
    by (rule getAmsterdamOffset_valid [OF y v(1-4) tb])
  have clip: "TimeClip (?t - 7200000) = Some (?t - 7200000)"
    "TimeClip (?t - 3600000) = Some (?t - 3600000)"
    using TimeClip_valid [OF y0 y(2) v(1-4) tb, of 7200000]
      TimeClip_valid [OF y0 y(2) v(1-4) tb, of 3600000]
    by simp_all
  show ?thesis
    using z by (simp add: parseDateTime_def date off getTime_def Date_of_value_def clip
        spec_normalize_def utc)
qed

text \<open>So it is for the strings of the form \<open>YYYY-MM-DDTHH:mm:ss\<close>, which the upstream API sends.\<close>

lemma parseDateTime_amsterdam_iso:
  assumes "iso_fields s = Some (y, m, d, h, n, sec)"
    and "valid_fields (y, m, d, h, n, sec)"
    and "100 \<le> y"
  shows "parseDateTime other (Some s) = Some (Some (spec_normalize (y, m, d, h, n, sec)))"
proof -
  note r = iso_fields_range [OF assms(1)]
  note z = iso_fields_no_zone [OF assms(1)]
  have "Date_parse other s = Some (utc_of_fields (y, m, d, h, n, sec))"
    using assms(1,2) by (simp add: Date_parse_def)
  from parseDateTime_amsterdam_rule [OF this assms(2,3) r(2-5) z]
  show ?thesis .
qed

lemma iso_fields_example:
  "iso_fields ''2025-06-14T13:31:00'' = Some (2025, 6, 14, 13, 31, 0)"
  "valid_fields (2025, 6, 14, 13, 31, 0)"
  "spec_dst 2025 6 14"
  "spec_last_sunday 2025 3 = 30" "spec_last_sunday 2025 10 = 26"
  "spec_normalize (2025, 6, 14, 13, 31, 0) = utc_of_fields (2025, 6, 14, 11, 31, 0)"
  by code_simp+

text \<open>The example of the specification: 13:31 on 14 June 2025 is 11:31 UTC.\<close>

lemma parseDateTime_amsterdam_example:
  "parseDateTime no_other (Some ''2025-06-14T13:31:00'')
     = Some (Some (utc_of_fields (2025, 6, 14, 11, 31, 0)))"
  using parseDateTime_amsterdam_iso [of "''2025-06-14T13:31:00''" 2025 6 14 13 31 0 no_other]
  by (simp add: iso_fields_example)

text \<open>A string of another form, which the host reads as the same date and time.\<close>

lemma parseDateTime_amsterdam_other_form:
  assumes "other ''2025-06-14 13:31:00'' = Some (utc_of_fields (2025, 6, 14, 13, 31, 0))"
  shows "parseDateTime other (Some ''2025-06-14 13:31:00'') = Some (Some (utc_of_fields (2025, 6, 14, 11, 31, 0)))"
proof -
  have i: "iso_fields ''2025-06-14 13:31:00'' = None" by code_simp
  have z: "''2025-06-14 13:31:00'' \<noteq> []" "\<not> includes_str ''2025-06-14 13:31:00'' ''Z''"
    "\<not> includes_str ''2025-06-14 13:31:00'' ''+''" "\<not> time_dash_test ''2025-06-14 13:31:00''"
    by code_simp+
  have "Date_parse other ''2025-06-14 13:31:00'' = Some (utc_of_fields (2025, 6, 14, 13, 31, 0))"
    using assms by (simp add: Date_parse_def i)
  from parseDateTime_amsterdam_rule [OF this _ _ _ _ _ _ z]
  show ?thesis by (simp add: iso_fields_example)
qed

text \<open>
  C2 fails on the code for the years 0 to 99. \<open>_getAmsterdamOffset\<close> looks for the last
  Sunday of March with \<open>new Date(year, 2, 31)\<close>, and the constructor reads a year from 0
  to 99 as 1900 plus the year. For 26 March of the year 50 it takes 31 March 1950, a
  Friday, holds the 26th to be the last Sunday of March and subtracts 120 minutes; the
  last Sunday of March of the year 50 is the 27th, and the rule of the specification
  subtracts 60 minutes.
\<close>

theorem C2_two_digit_year:
  "iso_fields ''0050-03-26T12:00:00'' = Some (50, 3, 26, 12, 0, 0)
   \<and> valid_fields (50, 3, 26, 12, 0, 0)
   \<and> spec_last_sunday 50 3 = 27 \<and> \<not> spec_dst 50 3 26
   \<and> spec_normalize (50, 3, 26, 12, 0, 0) = utc_of_fields (50, 3, 26, 12, 0, 0) - 60 * 60 * 1000
   \<and> Date_of_fields 50 2 31 = Date_of_fields 1950 2 31
   \<and> getDay (Date_of_fields 50 2 31) = Some 5
   \<and> getAmsterdamOffset (Date_of_string no_other ''0050-03-26T12:00:00'') = 120
   \<and> parseDateTime no_other (Some ''0050-03-26T12:00:00'')
       = Some (Some (utc_of_fields (50, 3, 26, 12, 0, 0) - 120 * 60 * 1000))
   \<and> parseDateTime no_other (Some ''0050-03-26T12:00:00'')
       \<noteq> Some (Some (spec_normalize (50, 3, 26, 12, 0, 0)))"
  by code_simp

subsection \<open>What holds of the claim about once mode\<close>

text \<open>
  Outside once mode a check fires exactly when a departure of the polled list
  qualifies.
\<close>

lemma always_mode_soon_fires_iff:
  assumes "station_id args = Some sid" "sid \<noteq> []" "trigger_mode args \<noteq> Some ''once''"
  shows "new_firings a (checkDepartureSoonTrigger e args a) \<noteq> []
         \<longleftrightarrow> (\<exists>dep \<in> set (polled_departures e sid a).
                soon_qualifies (env_strings e) (env_now e)
                  (toLowerCase (env_strings e) (or_str (destination_name args) []))
                  (soon_threshold args) dep)"
  using assms(3) by (simp add: soon_fires_iff [OF assms(1,2)])

lemma always_mode_delayed_fires_iff:
  assumes "station_id args = Some sid" "sid \<noteq> []" "trigger_mode args \<noteq> Some ''once''"
  shows "new_firings a (checkDepartureDelayedTrigger e args a) \<noteq> []
         \<longleftrightarrow> (\<exists>dep \<in> set (polled_departures e sid a).
                delayed_qualifies (env_strings e)
                  (toLowerCase (env_strings e) (or_str (destination_name args) []))
                  (delayed_minDelay args) dep)"
  using assms(3) by (simp add: delayed_fires_iff [OF assms(1,2)])

text \<open>
  The thresholds: 5 when none is configured and when 0 is configured, the configured
  value otherwise.
\<close>

lemma thresholds:
  "soon_threshold args = (case minutes args of None \<Rightarrow> 5 | Some t \<Rightarrow> if t = 0 then 5 else t)"
  "delayed_minDelay args = (case min_delay args of None \<Rightarrow> 5 | Some t \<Rightarrow> if t = 0 then 5 else t)"
  by (simp_all add: soon_threshold_def delayed_minDelay_def num_or_def split: option.splits)

text \<open>
  In once mode a uid fires at most once per kind for as long as the cleanup keeps its
  key: the invariant is that a uid that has fired has its key in the set.
\<close>

lemma count_fired_snoc:
  "fired a' = fired a @ [f] \<Longrightarrow>
   count_fired k u a' = count_fired k u a + (if trigger_card f = k \<and> uid (fired_for f) = u then 1 else 0)"
  by (simp add: count_fired_def)

lemma count_fired_same: "fired a' = fired a \<Longrightarrow> count_fired k u a' = count_fired k u a"
  by (simp add: count_fired_def)

lemma once_inv_soon:
  assumes "trigger_mode args = Some ''once''" "once_inv u a"
  shows "once_inv u (checkDepartureSoonTrigger e args a)"
proof -
  let ?a = "checkDepartureSoonTrigger e args a"
  from checkDepartureSoonTrigger_cases [of e args a]
  consider (same) "fired ?a = fired a" "triggered_soon ?a = triggered_soon a"
      "triggered_delayed ?a = triggered_delayed a"
    | (fire) dep f where "\<not> (trigger_mode args = Some ''once'' \<and> ''soon_'' @ uid dep \<in> set (triggered_soon a))"
      "trigger_card f = Soon" "fired_for f = dep" "fired ?a = fired a @ [f]"
      "triggered_soon ?a = set_add (''soon_'' @ uid dep) (triggered_soon a)"
      "triggered_delayed ?a = triggered_delayed a"
    by blast
  then show ?thesis
  proof cases
    case same
    with assms(2) show ?thesis by (simp add: once_inv_def count_fired_same [OF same(1)])
  next
    case fire
    from fire(1) assms(1) have k: "''soon_'' @ uid dep \<notin> set (triggered_soon a)" by simp
    show ?thesis
    proof (cases "uid dep = u")
      case True
      with k assms(2) have "count_fired Soon u a = 0" by (auto simp: once_inv_def)
      with True fire assms(2) show ?thesis
        by (simp add: once_inv_def count_fired_snoc [OF fire(4)] set_add_set)
    next
      case False
      with fire assms(2) show ?thesis
        by (auto simp: once_inv_def count_fired_snoc [OF fire(4)] set_add_set)
    qed
  qed
qed

lemma once_inv_delayed:
  assumes "trigger_mode args = Some ''once''" "once_inv u a"
  shows "once_inv u (checkDepartureDelayedTrigger e args a)"
proof -
  let ?a = "checkDepartureDelayedTrigger e args a"
  from checkDepartureDelayedTrigger_cases [of e args a]
  consider (same) "fired ?a = fired a" "triggered_soon ?a = triggered_soon a"
      "triggered_delayed ?a = triggered_delayed a"
    | (fire) dep f where "\<not> (trigger_mode args = Some ''once'' \<and> ''delayed_'' @ uid dep \<in> set (triggered_delayed a))"
      "trigger_card f = Delayed" "fired_for f = dep" "fired ?a = fired a @ [f]"
      "triggered_delayed ?a = set_add (''delayed_'' @ uid dep) (triggered_delayed a)"
      "triggered_soon ?a = triggered_soon a"
    by blast
  then show ?thesis
  proof cases
    case same
    with assms(2) show ?thesis by (simp add: once_inv_def count_fired_same [OF same(1)])
  next
    case fire
    from fire(1) assms(1) have k: "''delayed_'' @ uid dep \<notin> set (triggered_delayed a)" by simp
    show ?thesis
    proof (cases "uid dep = u")
      case True
      with k assms(2) have "count_fired Delayed u a = 0" by (auto simp: once_inv_def)
      with True fire assms(2) show ?thesis
        by (simp add: once_inv_def count_fired_snoc [OF fire(4)] set_add_set)
    next
      case False
      with fire assms(2) show ?thesis
        by (auto simp: once_inv_def count_fired_snoc [OF fire(4)] set_add_set)
    qed
  qed
qed

lemma once_inv_foldl_soon:
  "\<forall>args \<in> set argss. trigger_mode args = Some ''once'' \<Longrightarrow> once_inv u a \<Longrightarrow>
   once_inv u (foldl (\<lambda>s args. checkDepartureSoonTrigger e args s) a argss)"
  by (induction argss arbitrary: a) (simp_all add: once_inv_soon)

lemma once_inv_foldl_delayed:
  "\<forall>args \<in> set argss. trigger_mode args = Some ''once'' \<Longrightarrow> once_inv u a \<Longrightarrow>
   once_inv u (foldl (\<lambda>s args. checkDepartureDelayedTrigger e args s) a argss)"
  by (induction argss arbitrary: a) (simp_all add: once_inv_delayed)

lemma once_inv_cleanup:
  assumes "\<not> key_deleted (now - 60 * 60 * 1000) (''soon_'' @ u)"
    "\<not> key_deleted (now - 60 * 60 * 1000) (''delayed_'' @ u)" "once_inv u a"
  shows "once_inv u (cleanupTriggeredDepartures now a)"
  using assms by (simp add: once_inv_def cleanupTriggeredDepartures_def Let_def count_fired_def)

lemma once_inv_run_polls:
  "once_and_kept u polls \<Longrightarrow> once_inv u a \<Longrightarrow> once_inv u (run_polls polls a)"
proof (induction polls arbitrary: a)
  case Nil
  then show ?case by simp
next
  case (Cons p polls)
  obtain e soonArgs delayedArgs where p: "p = (e, soonArgs, delayedArgs)" by (cases p)
  from Cons.prems(1) have o: "\<forall>args \<in> set soonArgs. trigger_mode args = Some ''once''"
    "\<forall>args \<in> set delayedArgs. trigger_mode args = Some ''once''"
    "\<not> key_deleted (env_now e - 60 * 60 * 1000) (''soon_'' @ u)"
    "\<not> key_deleted (env_now e - 60 * 60 * 1000) (''delayed_'' @ u)"
    "once_and_kept u polls"
    unfolding p by auto
  have "once_inv u (checkTriggers e soonArgs delayedArgs a)"
    unfolding checkTriggers_def
    by (intro once_inv_cleanup o(3,4) once_inv_foldl_delayed o(2) once_inv_foldl_soon o(1) Cons.prems(2))
  from Cons.IH [OF o(5) this] show ?case by (simp add: p)
qed

lemma once_mode_at_most_once_while_key_kept:
  assumes "once_and_kept u polls"
  shows "count_fired Soon u (run_polls polls (onInit h)) \<le> 1"
    and "count_fired Delayed u (run_polls polls (onInit h)) \<le> 1"
proof -
  have "once_inv u (onInit h)"
    by (simp add: once_inv_def count_fired_def onInit_fields)
  from once_inv_run_polls [OF assms this]
  show "count_fired Soon u (run_polls polls (onInit h)) \<le> 1"
    and "count_fired Delayed u (run_polls polls (onInit h)) \<le> 1"
    by (auto simp: once_inv_def)
qed

end
